theory Spec2Isabelle
  imports Complex_Main
begin

section \<open>Numbers, columns and frames\<close>

text \<open>
  The pipeline of \<^verbatim>\<open>modules/module1_step_indicators.py\<close>,
  \<^verbatim>\<open>modules/module2_experiment_aggregation.py\<close> and
  \<^verbatim>\<open>modules/module3_ranking.py\<close> works on pandas data frames of 64-bit
  floats. Here a number is an exact rational: the IEEE special values (NaN, the
  infinities) and binary rounding error are not represented. The one place where the
  source creates NaN itself and reads it back, the left merge of the aggregator followed
  by \<^verbatim>\<open>fillna(0)\<close>, is modelled with an option. The branches of the source that
  only repair NaN or an infinity (the \<^verbatim>\<open>isin([np.inf, -np.inf])\<close> and
  \<^verbatim>\<open>isna()\<close> checks after normalising, weighting and summing) never fire on
  rationals and are the identity here.

  A frame is column oriented, as pandas is: the \<^verbatim>\<open>exp_id\<close> column, and the other
  columns by name. The metadata columns of the design table are carried along by every
  operation and read by none; they are columns like any other.
\<close>

datatype error =
  KeyError | ValueError | TypeError | AttributeError | IndexError
  | NameError | ZeroDivisionError | SyntaxError | RuntimeError

datatype column =
  Floats "rat list"
  | NaNFloats "rat option list"
  | Ints "nat list"
  | Bools "bool list"
  | NInts "nat option list"

text \<open>
  \<open>Floats\<close> is a float64 column without NaN and \<open>NaNFloats\<close> one that the left merge
  of the aggregator has left with NaN (\<open>None\<close>) for the rows without a match; \<open>Ints\<close>
  is an int64 column (the source only ever writes counts and ranks into one), \<open>Bools\<close>
  a boolean column and \<open>NInts\<close> a nullable \<^verbatim>\<open>Int64\<close> column, \<open>None\<close> being
  \<^verbatim>\<open>pd.NA\<close>. Where the source compares or computes with a column, the float and the
  integer columns without missing values are the numeric ones; the same operation on any
  other column is outside the model and is taken to raise, which every caller catches.
\<close>

definition numeric :: "column \<Rightarrow> rat list option" where
  "numeric col =
     (case col of Floats vs \<Rightarrow> Some vs | Ints ns \<Rightarrow> Some (map of_nat ns) | _ \<Rightarrow> None)"

record frame =
  exp_id :: "string list"
  cols :: "string \<Rightarrow> column option"

text \<open>\<^verbatim>\<open>df.empty\<close>: the frame always has its \<^verbatim>\<open>exp_id\<close> column, so it is empty
  exactly when it has no row.\<close>

definition empty_frame :: "frame \<Rightarrow> bool" where
  "empty_frame df = (exp_id df = [])"

definition nrows :: "frame \<Rightarrow> nat" where
  "nrows df = length (exp_id df)"

text \<open>\<^verbatim>\<open>df[c] = col\<close>.\<close>

definition set_col :: "frame \<Rightarrow> string \<Rightarrow> column \<Rightarrow> frame" where
  "set_col df c col = df\<lparr>cols := (cols df)(c \<mapsto> col)\<rparr>"

definition col_length :: "column \<Rightarrow> nat" where
  "col_length col =
     (case col of Floats xs \<Rightarrow> length xs | NaNFloats xs \<Rightarrow> length xs
      | Ints xs \<Rightarrow> length xs | Bools xs \<Rightarrow> length xs | NInts xs \<Rightarrow> length xs)"

text \<open>Every column of a data frame has one entry per row.\<close>

definition wf_frame :: "frame \<Rightarrow> bool" where
  "wf_frame df = (\<forall>c col. cols df c = Some col \<longrightarrow> col_length col = nrows df)"

text \<open>
  One entry of \<^verbatim>\<open>config_indicators.json\<close>. The source reads
  \<^verbatim>\<open>indicator_id\<close>, \<^verbatim>\<open>target_dataframe\<close>, \<^verbatim>\<open>aggregation\<close>,
  \<^verbatim>\<open>threshold\<close>, \<^verbatim>\<open>direction\<close> and \<^verbatim>\<open>weight\<close> with
  \<^verbatim>\<open>indicator[...]\<close>, which raises KeyError on a missing key, and
  \<^verbatim>\<open>category\<close> with \<^verbatim>\<open>.get\<close>: a missing key is \<open>None\<close>.
\<close>

record indicator =
  indicator_id :: "string option"
  target_dataframe :: "string option"
  aggregation :: "string option"
  threshold :: "rat option"
  direction :: "string option"
  weight :: "rat option"
  category :: "string option"

definition THRESHOLD_SUFFIX :: string where
  "THRESHOLD_SUFFIX = ''_in_threshold''"

definition NORMALIZED_SUFFIX :: string where
  "NORMALIZED_SUFFIX = ''_normalized''"


text \<open>\<^verbatim>\<open>indicator.get('indicator_id', 'unknown')\<close>, used by the exception handlers.\<close>

definition id_or_unknown :: "indicator \<Rightarrow> string" where
  "id_or_unknown ind = (case indicator_id ind of None \<Rightarrow> ''unknown'' | Some i \<Rightarrow> i)"


section \<open>Module 2: threshold filtering\<close>

text \<open>
  The state of the loop of \<^verbatim>\<open>apply_threshold_filters\<close>: the frame,
  \<^verbatim>\<open>threshold_cols\<close> and \<^verbatim>\<open>skipped_indicators\<close>. One iteration reads the
  three keys in the source's order, checks that the indicator's column exists and writes
  the flag column. The comparison of a column that is not numeric raises (the handler
  \<^verbatim>\<open>except Exception\<close>), which skips the indicator.
\<close>

type_synonym thr_state = "frame \<times> string list \<times> string list"

definition threshold_flags :: "string \<Rightarrow> rat \<Rightarrow> rat list \<Rightarrow> bool list" where
  "threshold_flags dir thr vs =
     (if dir = ''minimize'' then map (\<lambda>v. v \<le> thr) vs
      else if dir = ''maximize'' then map (\<lambda>v. v \<ge> thr) vs
      else map (\<lambda>v. v \<le> thr) vs)"

definition threshold_step :: "indicator \<Rightarrow> thr_state \<Rightarrow> thr_state" where
  "threshold_step ind st =
     (case st of (df, threshold_cols, skipped) \<Rightarrow>
        (case indicator_id ind of
           None \<Rightarrow> (df, threshold_cols, skipped @ [id_or_unknown ind])
         | Some ind_id \<Rightarrow>
        (case threshold ind of
           None \<Rightarrow> (df, threshold_cols, skipped @ [id_or_unknown ind])
         | Some thr \<Rightarrow>
        (case direction ind of
           None \<Rightarrow> (df, threshold_cols, skipped @ [id_or_unknown ind])
         | Some dir \<Rightarrow>
        (case cols df ind_id of
           None \<Rightarrow> (df, threshold_cols, skipped @ [ind_id])
         | Some col \<Rightarrow>
        (case numeric col of
           None \<Rightarrow> (df, threshold_cols, skipped @ [id_or_unknown ind])
         | Some vs \<Rightarrow>
             (set_col df (ind_id @ THRESHOLD_SUFFIX) (Bools (threshold_flags dir thr vs)),
              threshold_cols @ [ind_id @ THRESHOLD_SUFFIX], skipped)))))))"

fun threshold_loop :: "indicator list \<Rightarrow> thr_state \<Rightarrow> thr_state" where
  "threshold_loop [] st = st"
| "threshold_loop (ind # inds) st = threshold_loop inds (threshold_step ind st)"

text \<open>\<^verbatim>\<open>df[threshold_cols]\<close>: the listed columns, which must be boolean for
  \<^verbatim>\<open>~\<close>.\<close>

fun select_bools :: "frame \<Rightarrow> string list \<Rightarrow> error + bool list list" where
  "select_bools df [] = Inr []"
| "select_bools df (c # cs) =
     (case cols df c of
        None \<Rightarrow> Inl KeyError
      | Some (Bools bs) \<Rightarrow>
          (case select_bools df cs of Inl e \<Rightarrow> Inl e | Inr bss \<Rightarrow> Inr (bs # bss))
      | Some _ \<Rightarrow> Inl TypeError)"

text \<open>\<^verbatim>\<open>(~flags).sum(axis=1)\<close>: per row, the number of false flags.\<close>

definition count_false :: "nat \<Rightarrow> bool list list \<Rightarrow> nat list" where
  "count_false n bss = map (\<lambda>i. length (filter (\<lambda>bs. \<not> bs ! i) bss)) [0..<n]"

text \<open>The configuration is \<open>None\<close> when the key \<^verbatim>\<open>'indicators'\<close> is missing from
  \<^verbatim>\<open>indicators_config\<close>.\<close>

definition apply_threshold_filters :: "frame \<Rightarrow> indicator list option \<Rightarrow> error + frame" where
  "apply_threshold_filters df indicators_config =
     (if empty_frame df then Inr df
      else case indicators_config of
        None \<Rightarrow> Inl RuntimeError
      | Some indicators \<Rightarrow>
          (case threshold_loop indicators (df, [], []) of (df1, threshold_cols, skipped) \<Rightarrow>
             if threshold_cols \<noteq> [] then
               (case select_bools df1 threshold_cols of
                  Inl e \<Rightarrow> Inl e
                | Inr bss \<Rightarrow>
                    let violations = count_false (nrows df1) bss;
                        df2 = set_col df1 ''threshold_violations'' (Ints violations)
                    in Inr (set_col df2 ''is_feasible'' (Bools (map (\<lambda>v. v = 0) violations))))
             else
               Inr (set_col (set_col df1 ''threshold_violations'' (Ints (replicate (nrows df1) 0)))
                      ''is_feasible'' (Bools (replicate (nrows df1) True)))))"


section \<open>Rounding\<close>

text \<open>
  \<^verbatim>\<open>Series.round(d)\<close> and Python's \<^verbatim>\<open>round(x, d)\<close> round to \<open>d\<close> decimals, a
  tie going to the even neighbour. On exact rationals that is: scale by \<open>10 ^ d\<close>, round
  half to even, scale back. A negative \<open>d\<close> rounds to tens, hundreds and so on.
\<close>

definition round_half_even :: "rat \<Rightarrow> int" where
  "round_half_even x =
     (let f = \<lfloor>x\<rfloor>; d = x - of_int f
      in if d < 1 / 2 then f else if 1 / 2 < d then f + 1
         else if even f then f else f + 1)"

definition round_decimals :: "int \<Rightarrow> rat \<Rightarrow> rat" where
  "round_decimals d x =
     (if 0 \<le> d then of_int (round_half_even (x * 10 ^ nat d)) / 10 ^ nat d
      else of_int (round_half_even (x / 10 ^ nat (- d))) * 10 ^ nat (- d))"


section \<open>Module 2: normalization\<close>

text \<open>
  One iteration of the loop of \<^verbatim>\<open>normalize_indicators\<close> on the whole column
  \<open>vs\<close> of the indicator (all experiments: the function never looks at
  \<^verbatim>\<open>is_feasible\<close>). The frame is not empty when the loop runs, so \<open>vs\<close> is not
  empty for a well-formed frame.
\<close>

definition best_value :: "string \<Rightarrow> rat list \<Rightarrow> rat" where
  "best_value dir vs = (if dir = ''maximize'' then Max (set vs) else Min (set vs))"

definition worst_value_raw :: "string \<Rightarrow> rat list \<Rightarrow> rat" where
  "worst_value_raw dir vs = (if dir = ''maximize'' then Min (set vs) else Max (set vs))"

definition worst_value :: "string \<Rightarrow> rat \<Rightarrow> rat list \<Rightarrow> rat" where
  "worst_value dir thr vs =
     (if dir = ''minimize'' then min (worst_value_raw dir vs) thr
      else max (worst_value_raw dir vs) thr)"

definition normalize_column :: "string \<Rightarrow> rat \<Rightarrow> rat list \<Rightarrow> rat list" where
  "normalize_column dir thr vs =
     (let best = best_value dir vs; worst = worst_value dir thr vs
      in if \<bar>best - worst\<bar> < 1 / 10 ^ 10 then replicate (length vs) 1
         else if dir = ''minimize'' then
           map (\<lambda>v. round_decimals 2 ((worst - v) / (worst - best))) vs
         else if dir = ''maximize'' then
           map (\<lambda>v. round_decimals 2 ((v - worst) / (best - worst))) vs
         else map (\<lambda>v. round_decimals 2 ((worst - v) / (worst - best))) vs)"

type_synonym norm_state = "frame \<times> string list"

definition normalize_step :: "indicator \<Rightarrow> norm_state \<Rightarrow> norm_state" where
  "normalize_step ind st =
     (case st of (df, skipped) \<Rightarrow>
        (case indicator_id ind of
           None \<Rightarrow> (df, skipped @ [id_or_unknown ind])
         | Some ind_id \<Rightarrow>
        (case direction ind of
           None \<Rightarrow> (df, skipped @ [id_or_unknown ind])
         | Some dir \<Rightarrow>
        (case threshold ind of
           None \<Rightarrow> (df, skipped @ [id_or_unknown ind])
         | Some thr \<Rightarrow>
        (case cols df ind_id of
           None \<Rightarrow> (df, skipped @ [ind_id])
         | Some col \<Rightarrow>
        (case numeric col of
           None \<Rightarrow> (df, skipped @ [id_or_unknown ind])
         | Some vs \<Rightarrow>
             (set_col df (ind_id @ NORMALIZED_SUFFIX) (Floats (normalize_column dir thr vs)),
              skipped)))))))"

fun normalize_loop :: "indicator list \<Rightarrow> norm_state \<Rightarrow> norm_state" where
  "normalize_loop [] st = st"
| "normalize_loop (ind # inds) st = normalize_loop inds (normalize_step ind st)"

definition normalize_indicators :: "frame \<Rightarrow> indicator list option \<Rightarrow> error + frame" where
  "normalize_indicators df indicators_config =
     (if empty_frame df then Inr df
      else case indicators_config of
        None \<Rightarrow> Inl RuntimeError
      | Some indicators \<Rightarrow> Inr (fst (normalize_loop indicators (df, []))))"

section \<open>Reading the result tables\<close>




definition feasible_at :: "frame \<Rightarrow> nat \<Rightarrow> bool option" where
  "feasible_at df i =
     (case cols df ''is_feasible'' of Some (Bools bs) \<Rightarrow> Some (bs ! i) | _ \<Rightarrow> None)"

text \<open>The scenario of the test suite: three experiments, one indicator to minimise with
  threshold 1000.\<close>

definition IND01 :: indicator where
  "IND01 = \<lparr>indicator_id = Some ''IND01'', target_dataframe = Some ''df_process'',
     aggregation = Some ''sum'', threshold = Some 1000, direction = Some ''minimize'',
     weight = Some (3 / 10), category = Some ''economic''\<rparr>"

definition experiments3 :: "rat list \<Rightarrow> frame" where
  "experiments3 vs =
     \<lparr>exp_id = [''exp001'', ''exp002'', ''exp003''], cols = [''IND01'' \<mapsto> Floats vs]\<rparr>"

text \<open>Invariants of the threshold loop: the columns it has listed hold booleans and are
  named by the suffix.\<close>

definition thr_inv :: "thr_state \<Rightarrow> bool" where
  "thr_inv st = (case st of (df, tcols, sk) \<Rightarrow> \<forall>c\<in>set tcols. \<exists>bs. cols df c = Some (Bools bs))"




section \<open>Module 3: total score and ranking\<close>



definition TOTAL_SCORE_COLUMN :: string where
  "TOTAL_SCORE_COLUMN = ''total_weighted_score''"

definition FEASIBILITY_COLUMN :: string where
  "FEASIBILITY_COLUMN = ''is_feasible''"

definition RANK_ALL_COLUMN :: string where
  "RANK_ALL_COLUMN = ''rank_all''"

definition RANK_FEASIBLE_COLUMN :: string where
  "RANK_FEASIBLE_COLUMN = ''rank''"









text \<open>
  \<^verbatim>\<open>Series.rank(ascending=False, method='min')\<close>: a value's rank is one more than
  the number of strictly larger values of the series.
\<close>

definition rank_min_desc :: "rat list \<Rightarrow> nat list" where
  "rank_min_desc ss = map (\<lambda>s. 1 + length (filter (\<lambda>t. s < t) ss)) ss"

text \<open>
  \<^verbatim>\<open>df.loc[mask, col]\<close> read and written: the rows where the mask is true, in row
  order. The frame's index is unique (one label per row), so the assignment aligns the
  ranks with the rows they were computed from.
\<close>

fun select_rows :: "bool list \<Rightarrow> 'a list \<Rightarrow> 'a list" where
  "select_rows (f # fs) (x # xs) = (if f then x # select_rows fs xs else select_rows fs xs)"
| "select_rows _ _ = []"

fun assign_rows :: "bool list \<Rightarrow> nat list \<Rightarrow> nat option list" where
  "assign_rows [] rs = []"
| "assign_rows (True # fs) (r # rs) = Some r # assign_rows fs rs"
| "assign_rows (True # fs) [] = None # assign_rows fs []"
| "assign_rows (False # fs) rs = None # assign_rows fs rs"

definition rank_feasible :: "frame \<Rightarrow> column" where
  "rank_feasible df =
     (case cols df FEASIBILITY_COLUMN of
        Some (Bools feasible_mask) \<Rightarrow>
          if 0 < length (filter (\<lambda>f. f) feasible_mask) then
            (case cols df TOTAL_SCORE_COLUMN of
               None \<Rightarrow> NInts (replicate (nrows df) None)
             | Some tc \<Rightarrow>
                 (case numeric tc of
                    None \<Rightarrow> NInts (replicate (nrows df) None)
                  | Some ss \<Rightarrow>
                      NInts (assign_rows feasible_mask (rank_min_desc (select_rows feasible_mask ss)))))
          else NInts (replicate (nrows df) None)
      | _ \<Rightarrow> NInts (replicate (nrows df) None))"

definition rank_experiments :: "frame \<Rightarrow> frame" where
  "rank_experiments df =
     (if empty_frame df then df
      else case cols df TOTAL_SCORE_COLUMN of
        None \<Rightarrow>
          set_col (set_col df RANK_ALL_COLUMN (NInts (replicate (nrows df) None)))
            RANK_FEASIBLE_COLUMN (NInts (replicate (nrows df) None))
      | Some tc \<Rightarrow>
          (let df1 = (if cols df FEASIBILITY_COLUMN = None
                      then set_col df FEASIBILITY_COLUMN (Bools (replicate (nrows df) True))
                      else df);
               df2 = (case numeric tc of
                        None \<Rightarrow> set_col df1 RANK_ALL_COLUMN (NInts (replicate (nrows df) None))
                      | Some ss \<Rightarrow> set_col df1 RANK_ALL_COLUMN (Ints (rank_min_desc ss)))
           in set_col df2 RANK_FEASIBLE_COLUMN (rank_feasible df2)))"

text \<open>Reading the score and the two ranks of a row.\<close>

definition total_at :: "frame \<Rightarrow> nat \<Rightarrow> rat option" where
  "total_at df r =
     (case cols df TOTAL_SCORE_COLUMN of
        None \<Rightarrow> None
      | Some c \<Rightarrow> (case numeric c of None \<Rightarrow> None | Some ts \<Rightarrow> Some (ts ! r)))"

definition rank_all_at :: "frame \<Rightarrow> nat \<Rightarrow> nat option" where
  "rank_all_at df r =
     (case cols df RANK_ALL_COLUMN of Some (Ints rs) \<Rightarrow> Some (rs ! r) | _ \<Rightarrow> None)"

definition rank_at :: "frame \<Rightarrow> nat \<Rightarrow> nat option" where
  "rank_at df r =
     (case cols df RANK_FEASIBLE_COLUMN of Some (NInts rs) \<Rightarrow> rs ! r | _ \<Rightarrow> None)"




text \<open>Four scored experiments, the best one infeasible and two feasible ones tied.\<close>

definition scored4 :: frame where
  "scored4 =
     \<lparr>exp_id = [''exp001'', ''exp002'', ''exp003'', ''exp004''],
      cols = [''total_weighted_score'' \<mapsto> Floats [9 / 10, 1 / 2, 7 / 10, 7 / 10],
              ''is_feasible'' \<mapsto> Bools [False, True, True, True]]\<rparr>"


section \<open>Module 1: variable resolution and formula evaluation\<close>

text \<open>
  The attribute tables are JSON documents and the cells of a row are numbers or strings.
  A Python value is one of these; a dictionary keeps its items in insertion order, as
  \<^verbatim>\<open>json.load\<close> builds it (with distinct keys). JSON booleans are left out.
  \<^verbatim>\<open>==\<close> is equality of values: the source compares with a cell of the row, a
  number or a string, where that is what Python computes.
\<close>

datatype pyval =
  PNone
  | Num rat
  | Str string
  | Lst "pyval list"
  | Dct "(string \<times> pyval) list"

text \<open>Sequencing of computations that may raise, and \<^verbatim>\<open>try: ... except Exception\<close>.\<close>

definition bind_err :: "error + 'a \<Rightarrow> ('a \<Rightarrow> error + 'b) \<Rightarrow> error + 'b" where
  "bind_err m f = (case m of Inl e \<Rightarrow> Inl e | Inr x \<Rightarrow> f x)"


text \<open>A key that the source requires: \<^verbatim>\<open>raise KeyError\<close> when it is missing.\<close>

definition require :: "'a option \<Rightarrow> error + 'a" where
  "require x = (case x of None \<Rightarrow> Inl KeyError | Some v \<Rightarrow> Inr v)"

text \<open>\<^verbatim>\<open>v[k]\<close> with a string key.\<close>

definition py_index :: "pyval \<Rightarrow> string \<Rightarrow> error + pyval" where
  "py_index v k =
     (case v of Dct kvs \<Rightarrow> (case map_of kvs k of None \<Rightarrow> Inl KeyError | Some x \<Rightarrow> Inr x)
      | _ \<Rightarrow> Inl TypeError)"

text \<open>\<^verbatim>\<open>v.get(k, default)\<close>: only a dictionary has the method.\<close>

definition py_get :: "pyval \<Rightarrow> string \<Rightarrow> pyval \<Rightarrow> error + pyval" where
  "py_get v k dflt =
     (case v of Dct kvs \<Rightarrow> (case map_of kvs k of None \<Rightarrow> Inr dflt | Some x \<Rightarrow> Inr x)
      | _ \<Rightarrow> Inl AttributeError)"

text \<open>\<^verbatim>\<open>for x in v\<close>: the elements of a list, the keys of a dictionary, the characters
  of a string.\<close>

definition py_iter :: "pyval \<Rightarrow> error + pyval list" where
  "py_iter v =
     (case v of Lst xs \<Rightarrow> Inr xs
      | Dct kvs \<Rightarrow> Inr (map (\<lambda>kv. Str (fst kv)) kvs)
      | Str s \<Rightarrow> Inr (map (\<lambda>c. Str [c]) s)
      | _ \<Rightarrow> Inl TypeError)"

text \<open>\<^verbatim>\<open>a <= b\<close> on numbers. Python also orders two strings and two lists; those
  comparisons are not modelled and count as a TypeError here.\<close>

definition py_le :: "pyval \<Rightarrow> pyval \<Rightarrow> error + bool" where
  "py_le a b = (case (a, b) of (Num x, Num y) \<Rightarrow> Inr (x \<le> y) | _ \<Rightarrow> Inl TypeError)"

text \<open>The chained comparison \<^verbatim>\<open>q_min <= quality <= q_max\<close>: the second comparison is
  evaluated only when the first holds.\<close>

definition py_between :: "pyval \<Rightarrow> pyval \<Rightarrow> pyval \<Rightarrow> error + bool" where
  "py_between q_min quality q_max =
     bind_err (py_le q_min quality) (\<lambda>b. if b then py_le quality q_max else Inr False)"

text \<open>\<^verbatim>\<open>s.split('.')\<close>.\<close>

fun split_on :: "char \<Rightarrow> string \<Rightarrow> string list" where
  "split_on c [] = [[]]"
| "split_on c (x # xs) =
     (if x = c then [] # split_on c xs
      else (case split_on c xs of w # ws \<Rightarrow> (x # w) # ws | [] \<Rightarrow> [[x]]))"

text \<open>\<^verbatim>\<open>s.replace(old, new)\<close> for a non-empty \<open>old\<close>: the occurrences are replaced
  from the left and do not overlap; \<open>skip\<close> counts the characters of an occurrence that
  are still to be dropped.\<close>

fun replace_from :: "string \<Rightarrow> string \<Rightarrow> nat \<Rightarrow> string \<Rightarrow> string" where
  "replace_from old new skip [] = []"
| "replace_from old new skip (c # cs) =
     (if 0 < skip then replace_from old new (skip - 1) cs
      else if take (length old) (c # cs) = old then new @ replace_from old new (length old - 1) cs
      else c # replace_from old new 0 cs)"

definition str_replace :: "string \<Rightarrow> string \<Rightarrow> string \<Rightarrow> string" where
  "str_replace old new s = replace_from old new 0 s"

text \<open>
  The configuration of one variable. In the JSON every field is a string, except
  \<^verbatim>\<open>lookup_columns\<close>, a list of strings; a field is \<open>None\<close> when its key is missing.
\<close>

record var_config =
  var_source :: "string option"
  var_column :: "string option"
  var_file :: "string option"
  var_lookup_columns :: "string list option"
  var_value_path :: "string option"
  var_lookup_column :: "string option"
  var_quality_column :: "string option"
  var_value_key :: "string option"

text \<open>A row of a data frame (a pandas Series): the cell of each column it has.\<close>

type_synonym row = "string \<Rightarrow> pyval option"

text \<open>
  The data dictionary that the modules pass along: \<^verbatim>\<open>data['attributes']\<close>, the
  data frames by their key (\<^verbatim>\<open>'doe'\<close>, \<^verbatim>\<open>'df_process'\<close>,
  \<^verbatim>\<open>'df_product'\<close>, \<^verbatim>\<open>'df_resource'\<close>, \<^verbatim>\<open>'df_system'\<close>) and the list
  \<^verbatim>\<open>data['indicators']['indicators']\<close>; \<open>None\<close> is a missing key.
\<close>

record data =
  attributes :: "pyval option"
  tables :: "string \<Rightarrow> frame option"
  indicators :: "indicator list option"

definition no_data :: data where
  "no_data = \<lparr>attributes = None, tables = Map.empty, indicators = None\<rparr>"

definition COMPONENT_NAME :: string where
  "COMPONENT_NAME = ''component_name''"

definition QUALITY_MIN :: string where
  "QUALITY_MIN = ''quality_min''"

definition QUALITY_MAX :: string where
  "QUALITY_MAX = ''quality_max''"

definition TABLE_PROCESS :: string where
  "TABLE_PROCESS = ''process''"

definition TABLE_SYSTEMS :: string where
  "TABLE_SYSTEMS = ''systems''"

definition TABLE_PRODUCT :: string where
  "TABLE_PRODUCT = ''product''"

definition DEFAULT_VALUE :: pyval where
  "DEFAULT_VALUE = Num 0"

text \<open>\<^verbatim>\<open>structure_key = attr_structure[table]\<close>, then
  \<^verbatim>\<open>data['attributes'][table][structure_key]\<close>.\<close>

definition attr_table_of :: "data \<Rightarrow> (string \<Rightarrow> string option) \<Rightarrow> string \<Rightarrow> error + pyval" where
  "attr_table_of d attr_structure table =
     bind_err (require (attr_structure table)) (\<lambda>structure_key.
     bind_err (require (attributes d)) (\<lambda>attrs.
     bind_err (py_index attrs table) (\<lambda>t. py_index t structure_key)))"

text \<open>\<^verbatim>\<open>for path_part in parts: value = value.get(path_part, default)\<close>.\<close>

fun walk_get :: "pyval \<Rightarrow> string list \<Rightarrow> pyval \<Rightarrow> error + pyval" where
  "walk_get v [] dflt = Inr v"
| "walk_get v (p # ps) dflt = bind_err (py_get v p dflt) (\<lambda>v'. walk_get v' ps dflt)"

definition or_default :: "pyval \<Rightarrow> pyval" where
  "or_default v = (if v \<noteq> PNone then v else DEFAULT_VALUE)"

text \<open>The loop over the components of the product table, for a fixed attribute.\<close>

fun product_lookup :: "pyval list \<Rightarrow> pyval \<Rightarrow> string list \<Rightarrow> error + pyval" where
  "product_lookup [] step_name path = Inr DEFAULT_VALUE"
| "product_lookup (component # rest) step_name path =
     bind_err (py_index component COMPONENT_NAME) (\<lambda>name.
       if name = step_name then
         bind_err (walk_get component path DEFAULT_VALUE) (\<lambda>v. Inr (or_default v))
       else product_lookup rest step_name path)"

text \<open>\<^verbatim>\<open>all(entry.get(k) == v for k, v in lookup_values.items())\<close>, which stops at the
  first key that differs.\<close>

fun all_match :: "pyval \<Rightarrow> (string \<times> pyval) list \<Rightarrow> error + bool" where
  "all_match entry [] = Inr True"
| "all_match entry (kv # kvs) =
     bind_err (py_get entry (fst kv) PNone) (\<lambda>x.
       if x = snd kv then all_match entry kvs else Inr False)"

text \<open>The loop over the entries of the process or systems table.\<close>

fun entry_lookup :: "pyval list \<Rightarrow> (string \<times> pyval) list \<Rightarrow> string list \<Rightarrow> error + pyval" where
  "entry_lookup [] lookup_values path = Inr DEFAULT_VALUE"
| "entry_lookup (entry # rest) lookup_values path =
     bind_err (all_match entry lookup_values) (\<lambda>m.
       if m then bind_err (walk_get entry path DEFAULT_VALUE) (\<lambda>v. Inr (or_default v))
       else entry_lookup rest lookup_values path)"

text \<open>\<^verbatim>\<open>lookup_values[col] = row[col]\<close> for every lookup column, KeyError for a column
  the row does not have. A column listed twice is tested twice against the same cell.\<close>

fun lookup_values_of :: "row \<Rightarrow> string list \<Rightarrow> error + (string \<times> pyval) list" where
  "lookup_values_of r [] = Inr []"
| "lookup_values_of r (col # cs) =
     bind_err (require (r col)) (\<lambda>v.
     bind_err (lookup_values_of r cs) (\<lambda>kvs. Inr ((col, v) # kvs)))"

definition from_dataframe :: "row \<Rightarrow> var_config \<Rightarrow> error + pyval" where
  "from_dataframe r var_config =
     bind_err (require (var_column var_config)) (\<lambda>col_name. require (r col_name))"

definition from_attribute_file ::
    "row \<Rightarrow> var_config \<Rightarrow> data \<Rightarrow> (string \<Rightarrow> string option) \<Rightarrow> error + pyval" where
  "from_attribute_file r var_config d attr_structure =
     bind_err (require (var_file var_config)) (\<lambda>file.
     bind_err (require (var_lookup_columns var_config)) (\<lambda>lookup_columns.
     bind_err (require (var_value_path var_config)) (\<lambda>value_path.
     let table_name = str_replace ''.json'' '''' (str_replace ''attributes_'' '''' file) in
     bind_err (lookup_values_of r lookup_columns) (\<lambda>lookup_values.
       if table_name = TABLE_PROCESS \<or> table_name = TABLE_SYSTEMS then
         bind_err (attr_table_of d attr_structure table_name) (\<lambda>attr_table.
         bind_err (py_iter attr_table) (\<lambda>entries.
           entry_lookup entries lookup_values (split_on CHR ''.'' value_path)))
       else if table_name = TABLE_PRODUCT then
         (case lookup_values of
            [] \<Rightarrow> Inl IndexError
          | kv # _ \<Rightarrow>
              bind_err (attr_table_of d attr_structure TABLE_PRODUCT) (\<lambda>attr_table.
              bind_err (py_iter attr_table) (\<lambda>components.
                product_lookup components (snd kv) (split_on CHR ''.'' value_path))))
       else Inr DEFAULT_VALUE))))"

text \<open>
  The loop over the range entries (quality ranges) or the options (quality thresholds)
  of the component that was found: \<open>None\<close> when no entry contains the quality, so that
  the source leaves the loop and returns the default.
\<close>

fun range_lookup :: "pyval list \<Rightarrow> pyval \<Rightarrow> string \<Rightarrow> error + pyval option" where
  "range_lookup [] quality value_key = Inr None"
| "range_lookup (range_entry # rest) quality value_key =
     bind_err (py_get range_entry QUALITY_MIN (Num 0)) (\<lambda>q_min.
     bind_err (py_get range_entry QUALITY_MAX (Num 1)) (\<lambda>q_max.
     bind_err (py_between q_min quality q_max) (\<lambda>inside.
       if inside then bind_err (py_get range_entry value_key DEFAULT_VALUE) (\<lambda>v. Inr (Some v))
       else range_lookup rest quality value_key)))"

definition found_or_default :: "pyval option \<Rightarrow> pyval" where
  "found_or_default x = (case x of None \<Rightarrow> DEFAULT_VALUE | Some v \<Rightarrow> v)"

fun quality_range_lookup ::
    "pyval list \<Rightarrow> pyval \<Rightarrow> pyval \<Rightarrow> string list \<Rightarrow> string \<Rightarrow> error + pyval" where
  "quality_range_lookup [] step_name quality path value_key = Inr DEFAULT_VALUE"
| "quality_range_lookup (component # rest) step_name quality path value_key =
     bind_err (py_index component COMPONENT_NAME) (\<lambda>name.
       if name = step_name then
         bind_err (walk_get component path (Lst [])) (\<lambda>attr_data.
           case attr_data of
             Lst ranges \<Rightarrow>
               bind_err (range_lookup ranges quality value_key) (\<lambda>x. Inr (found_or_default x))
           | _ \<Rightarrow> Inr DEFAULT_VALUE)
       else quality_range_lookup rest step_name quality path value_key)"

text \<open>\<^verbatim>\<open>eol_options.items()\<close>: only a dictionary has the method; the options come in
  the order of the table.\<close>

definition py_items_values :: "pyval \<Rightarrow> error + pyval list" where
  "py_items_values v = (case v of Dct kvs \<Rightarrow> Inr (map snd kvs) | _ \<Rightarrow> Inl AttributeError)"

fun quality_threshold_lookup ::
    "pyval list \<Rightarrow> pyval \<Rightarrow> pyval \<Rightarrow> string \<Rightarrow> string \<Rightarrow> error + pyval" where
  "quality_threshold_lookup [] step_name quality value_path value_key = Inr DEFAULT_VALUE"
| "quality_threshold_lookup (component # rest) step_name quality value_path value_key =
     bind_err (py_index component COMPONENT_NAME) (\<lambda>name.
       if name = step_name then
         bind_err (py_get component value_path (Dct [])) (\<lambda>eol_options.
         bind_err (py_items_values eol_options) (\<lambda>options.
         bind_err (range_lookup options quality value_key) (\<lambda>x. Inr (found_or_default x))))
       else quality_threshold_lookup rest step_name quality value_path value_key)"

text \<open>The five keys that both quality sources require, and the two cells they read.\<close>

definition quality_inputs ::
    "row \<Rightarrow> var_config \<Rightarrow> error + (pyval \<times> pyval \<times> string \<times> string)" where
  "quality_inputs r var_config =
     bind_err (require (var_file var_config)) (\<lambda>file.
     bind_err (require (var_lookup_column var_config)) (\<lambda>lookup_column.
     bind_err (require (var_quality_column var_config)) (\<lambda>quality_column.
     bind_err (require (var_value_path var_config)) (\<lambda>value_path.
     bind_err (require (var_value_key var_config)) (\<lambda>value_key.
     bind_err (require (r lookup_column)) (\<lambda>step_name.
     bind_err (require (r quality_column)) (\<lambda>quality.
       Inr (step_name, quality, value_path, value_key))))))))"

definition from_quality_range ::
    "row \<Rightarrow> var_config \<Rightarrow> data \<Rightarrow> (string \<Rightarrow> string option) \<Rightarrow> error + pyval" where
  "from_quality_range r var_config d attr_structure =
     bind_err (quality_inputs r var_config) (\<lambda>(step_name, quality, value_path, value_key).
     bind_err (attr_table_of d attr_structure TABLE_PRODUCT) (\<lambda>attr_table.
     bind_err (py_iter attr_table) (\<lambda>components.
       quality_range_lookup components step_name quality (split_on CHR ''.'' value_path) value_key)))"

definition from_quality_threshold ::
    "row \<Rightarrow> var_config \<Rightarrow> data \<Rightarrow> (string \<Rightarrow> string option) \<Rightarrow> error + pyval" where
  "from_quality_threshold r var_config d attr_structure =
     bind_err (quality_inputs r var_config) (\<lambda>(step_name, quality, value_path, value_key).
     bind_err (attr_table_of d attr_structure TABLE_PRODUCT) (\<lambda>attr_table.
     bind_err (py_iter attr_table) (\<lambda>components.
       quality_threshold_lookup components step_name quality value_path value_key)))"

definition get_variable_value ::
    "row \<Rightarrow> string \<Rightarrow> var_config \<Rightarrow> data \<Rightarrow> (string \<Rightarrow> string option) \<Rightarrow> error + pyval" where
  "get_variable_value r var_name var_config d attr_structure =
     bind_err (require (var_source var_config)) (\<lambda>source.
       if source = ''dataframe'' then from_dataframe r var_config
       else if source = ''attribute_file'' then from_attribute_file r var_config d attr_structure
       else if source = ''quality_range'' then from_quality_range r var_config d attr_structure
       else if source = ''quality_threshold'' then
         from_quality_threshold r var_config d attr_structure
       else Inl ValueError)"










text \<open>
  The reading of a range entry that the quality lookups are specified by: a missing
  \<^verbatim>\<open>quality_min\<close> is 0, a missing \<^verbatim>\<open>quality_max\<close> is 1, both ends belong to the
  range, and the first entry of the table that contains the quality gives the value.
\<close>

definition entry_min :: "pyval \<Rightarrow> rat" where
  "entry_min entry =
     (case entry of
        Dct kvs \<Rightarrow> (case map_of kvs QUALITY_MIN of None \<Rightarrow> 0 | Some (Num a) \<Rightarrow> a | Some _ \<Rightarrow> 0)
      | _ \<Rightarrow> 0)"

definition entry_max :: "pyval \<Rightarrow> rat" where
  "entry_max entry =
     (case entry of
        Dct kvs \<Rightarrow> (case map_of kvs QUALITY_MAX of None \<Rightarrow> 1 | Some (Num a) \<Rightarrow> a | Some _ \<Rightarrow> 1)
      | _ \<Rightarrow> 1)"

definition contains_quality :: "rat \<Rightarrow> pyval \<Rightarrow> bool" where
  "contains_quality q entry = (entry_min entry \<le> q \<and> q \<le> entry_max entry)"

definition entry_value :: "string \<Rightarrow> pyval \<Rightarrow> pyval" where
  "entry_value value_key entry =
     (case entry of
        Dct kvs \<Rightarrow> (case map_of kvs value_key of None \<Rightarrow> DEFAULT_VALUE | Some v \<Rightarrow> v)
      | _ \<Rightarrow> DEFAULT_VALUE)"

definition first_containing :: "rat \<Rightarrow> string \<Rightarrow> pyval list \<Rightarrow> pyval" where
  "first_containing q value_key entries =
     (case find (contains_quality q) entries of
        None \<Rightarrow> DEFAULT_VALUE
      | Some entry \<Rightarrow> entry_value value_key entry)"

text \<open>A range entry or option as the attribute tables have it: a dictionary whose
  bounds, where present, are numbers.\<close>

definition numeric_or_missing :: "pyval option \<Rightarrow> bool" where
  "numeric_or_missing x = (case x of None \<Rightarrow> True | Some (Num a) \<Rightarrow> True | Some _ \<Rightarrow> False)"

definition wf_range_entry :: "pyval \<Rightarrow> bool" where
  "wf_range_entry entry =
     (case entry of
        Dct kvs \<Rightarrow> numeric_or_missing (map_of kvs QUALITY_MIN)
                   \<and> numeric_or_missing (map_of kvs QUALITY_MAX)
      | _ \<Rightarrow> False)"

text \<open>The components before the one a lookup finds: dictionaries with another name.\<close>

definition other_component :: "pyval \<Rightarrow> pyval \<Rightarrow> bool" where
  "other_component step_name component =
     (case component of
        Dct kvs \<Rightarrow> (case map_of kvs COMPONENT_NAME of None \<Rightarrow> False | Some n \<Rightarrow> n \<noteq> step_name)
      | _ \<Rightarrow> False)"

text \<open>
  A product table with two components. \<open>housing\<close> has three recovery-value ranges, the
  first without a lower and the last without an upper bound, and two end-of-life options.
\<close>

definition housing :: "(string \<times> pyval) list" where
  "housing =
     [(''component_name'', Str ''housing''),
      (''quality_dependent'', Dct [(''recovery'',
         Lst [Dct [(''quality_max'', Num (3 / 10)), (''value'', Num 5)],
              Dct [(''quality_min'', Num (3 / 10)), (''quality_max'', Num (7 / 10)),
                   (''value'', Num 12)],
              Dct [(''quality_min'', Num (7 / 10)), (''value'', Num 20)]])]),
      (''end_of_life_options'',
         Dct [(''recycle'', Dct [(''quality_max'', Num (1 / 2)), (''circularity'', Num (2 / 5))]),
              (''reuse'', Dct [(''quality_min'', Num (1 / 2)), (''circularity'', Num 1)])])]"

definition product_data :: data where
  "product_data =
     no_data\<lparr>attributes := Some (Dct [(''product'', Dct [(''components'',
         Lst [Dct [(''component_name'', Str ''screw'')], Dct housing])])])\<rparr>"

definition product_structure :: "string \<Rightarrow> string option" where
  "product_structure = [''product'' \<mapsto> ''components'']"

definition housing_row :: "rat \<Rightarrow> row" where
  "housing_row q = [''step_name'' \<mapsto> Str ''housing'', ''quality'' \<mapsto> Num q]"

definition recovery_var :: var_config where
  "recovery_var =
     \<lparr>var_source = Some ''quality_range'', var_column = None,
      var_file = Some ''attributes_product.json'', var_lookup_columns = None,
      var_value_path = Some ''quality_dependent.recovery'', var_lookup_column = Some ''step_name'',
      var_quality_column = Some ''quality'', var_value_key = Some ''value''\<rparr>"

definition circularity_var :: var_config where
  "circularity_var =
     \<lparr>var_source = Some ''quality_threshold'', var_column = None,
      var_file = Some ''attributes_product.json'', var_lookup_columns = None,
      var_value_path = Some ''end_of_life_options'', var_lookup_column = Some ''step_name'',
      var_quality_column = Some ''quality'', var_value_key = Some ''circularity''\<rparr>"





section \<open>Module 2: aggregation to experiment level\<close>

text \<open>The messages that \<^verbatim>\<open>aggregate_to_experiment_level\<close> prints, in order.\<close>

datatype agg_msg =
  NoExperiments
  | NoMatchingExperiments
  | TargetNotFound string string
  | IndicatorNotFound string string
  | FilledWithZero nat string
  | MissingConfigKey
  | AggregationFailed string
  | NoneAggregated

text \<open>
  The series that is merged, as its (index, value) pairs. \<^verbatim>\<open>groupby(exp_id)\<close> has
  one entry per experiment id of the target table (pandas sorts them; the left merge does
  not depend on their order); \<^verbatim>\<open>set_index(exp_id)\<close> keeps every row of the table.
\<close>

definition group_values :: "(string \<times> rat) list \<Rightarrow> string \<Rightarrow> rat list" where
  "group_values ps e = map snd (filter (\<lambda>p. fst p = e) ps)"

definition groupby_sum :: "(string \<times> rat) list \<Rightarrow> (string \<times> rat) list" where
  "groupby_sum ps = map (\<lambda>e. (e, sum_list (group_values ps e))) (remdups (map fst ps))"

definition groupby_mean :: "(string \<times> rat) list \<Rightarrow> (string \<times> rat) list" where
  "groupby_mean ps =
     map (\<lambda>e. (e, sum_list (group_values ps e) / of_nat (length (group_values ps e))))
       (remdups (map fst ps))"

definition aggregate_series :: "string \<Rightarrow> (string \<times> rat) list \<Rightarrow> (string \<times> rat) list" where
  "aggregate_series agg_method ps =
     (if agg_method = ''sum'' then groupby_sum ps
      else if agg_method = ''average'' \<or> agg_method = ''mean'' then groupby_mean ps
      else ps)"

text \<open>
  \<^verbatim>\<open>df.merge(series, left_on=exp_id, right_index=True, how='left')\<close>: the rows of the
  left frame in their order; a row with matches in the series is repeated once per match,
  a row without one is kept with NaN. The result is given by the index of the left row
  each of its rows comes from, and the new value.
\<close>

definition merge_rows :: "string list \<Rightarrow> (string \<times> rat) list \<Rightarrow> (nat \<times> rat option) list" where
  "merge_rows ids aggregated =
     concat (map (\<lambda>i. case group_values aggregated (ids ! i) of
                          [] \<Rightarrow> [(i, None)]
                        | v # vs \<Rightarrow> map (\<lambda>x. (i, Some x)) (v # vs)) [0..<length ids])"

definition take_col :: "nat list \<Rightarrow> column \<Rightarrow> column" where
  "take_col idxs col =
     (case col of
        Floats xs \<Rightarrow> Floats (map (nth xs) idxs)
      | NaNFloats xs \<Rightarrow> NaNFloats (map (nth xs) idxs)
      | Ints xs \<Rightarrow> Ints (map (nth xs) idxs)
      | Bools xs \<Rightarrow> Bools (map (nth xs) idxs)
      | NInts xs \<Rightarrow> NInts (map (nth xs) idxs))"

definition take_rows :: "nat list \<Rightarrow> frame \<Rightarrow> frame" where
  "take_rows idxs df =
     \<lparr>exp_id = map (nth (exp_id df)) idxs, cols = (\<lambda>c. map_option (take_col idxs) (cols df c))\<rparr>"

definition fillna0 :: "rat option list \<Rightarrow> rat list" where
  "fillna0 xs = map (\<lambda>x. case x of None \<Rightarrow> 0 | Some v \<Rightarrow> v) xs"

text \<open>
  One iteration of the loop over the indicators; the state is the experiment table,
  \<^verbatim>\<open>missing_indicators\<close> and the messages printed so far. When the experiment table
  already has a column of the indicator's name, pandas renames the two columns with the
  suffixes \<open>_x\<close> and \<open>_y\<close>, so that \<^verbatim>\<open>df_experiments[ind_id]\<close> raises KeyError
  after the merged table has been assigned (a further clash of the suffixed names is not
  modelled). The target table's column is numeric and no indicator is called
  \<^verbatim>\<open>exp_id\<close>.
\<close>

type_synonym agg_state = "frame \<times> string list \<times> agg_msg list"

definition aggregate_step :: "data \<Rightarrow> indicator \<Rightarrow> agg_state \<Rightarrow> agg_state" where
  "aggregate_step d ind st =
     (case st of (df, missing, msgs) \<Rightarrow>
        (case indicator_id ind of
           None \<Rightarrow> (df, missing @ [id_or_unknown ind], msgs @ [MissingConfigKey])
         | Some ind_id \<Rightarrow>
        (case target_dataframe ind of
           None \<Rightarrow> (df, missing @ [id_or_unknown ind], msgs @ [MissingConfigKey])
         | Some target_df_name \<Rightarrow>
        (case aggregation ind of
           None \<Rightarrow> (df, missing @ [id_or_unknown ind], msgs @ [MissingConfigKey])
         | Some agg_method \<Rightarrow>
        (case tables d target_df_name of
           None \<Rightarrow> (df, missing @ [ind_id], msgs @ [TargetNotFound target_df_name ind_id])
         | Some target_df \<Rightarrow>
        (case cols target_df ind_id of
           None \<Rightarrow> (df, missing @ [ind_id], msgs @ [IndicatorNotFound ind_id target_df_name])
         | Some col \<Rightarrow>
        (case numeric col of
           None \<Rightarrow> (df, missing @ [id_or_unknown ind], msgs @ [AggregationFailed ind_id])
         | Some vs \<Rightarrow>
             (let aggregated = aggregate_series agg_method (zip (exp_id target_df) vs);
                  rows = merge_rows (exp_id df) aggregated;
                  merged = take_rows (map fst rows) df;
                  new = map snd rows
              in if cols df ind_id \<noteq> None then
                   (merged\<lparr>cols := (cols merged)
                        (ind_id := None, ind_id @ ''_x'' := cols merged ind_id,
                         ind_id @ ''_y'' \<mapsto> NaNFloats new)\<rparr>,
                    missing @ [id_or_unknown ind], msgs @ [MissingConfigKey])
                 else if None \<in> set new then
                   (set_col merged ind_id (Floats (fillna0 new)), missing,
                    msgs @ [FilledWithZero (length (filter (\<lambda>x. x = None) new)) ind_id])
                 else (set_col merged ind_id (Floats (fillna0 new)), missing, msgs)))))))))"

fun aggregate_loop :: "data \<Rightarrow> indicator list \<Rightarrow> agg_state \<Rightarrow> agg_state" where
  "aggregate_loop d [] st = st"
| "aggregate_loop d (ind # inds) st = aggregate_loop d inds (aggregate_step d ind st)"

text \<open>\<^verbatim>\<open>[ind[id] for ind in indicators if ind[id] not in missing_indicators]\<close>, outside
  every handler: an indicator without id raises KeyError out of the function.\<close>

fun indicator_cols_of :: "indicator list \<Rightarrow> string list \<Rightarrow> error + string list" where
  "indicator_cols_of [] missing = Inr []"
| "indicator_cols_of (ind # inds) missing =
     bind_err (require (indicator_id ind)) (\<lambda>i.
     bind_err (indicator_cols_of inds missing) (\<lambda>cs.
       Inr (if i \<notin> set missing then i # cs else cs)))"

text \<open>\<^verbatim>\<open>df[cs] = df[cs].round(2)\<close>: KeyError when a listed column does not exist.\<close>

definition round_col :: "column \<Rightarrow> column" where
  "round_col col =
     (case col of
        Floats xs \<Rightarrow> Floats (map (round_decimals 2) xs)
      | NaNFloats xs \<Rightarrow> NaNFloats (map (map_option (round_decimals 2)) xs)
      | c \<Rightarrow> c)"

fun round_columns :: "frame \<Rightarrow> string list \<Rightarrow> error + frame" where
  "round_columns df [] = Inr df"
| "round_columns df (c # cs) =
     (case cols df c of
        None \<Rightarrow> Inl KeyError
      | Some col \<Rightarrow> bind_err (round_columns df cs) (\<lambda>df'. Inr (set_col df' c (round_col col))))"

text \<open>\<^verbatim>\<open>pd.DataFrame()\<close>.\<close>

definition empty_DataFrame :: frame where
  "empty_DataFrame = \<lparr>exp_id = [], cols = Map.empty\<rparr>"

text \<open>\<^verbatim>\<open>df[df[exp_id].isin(available_exp_ids)]\<close>.\<close>

definition filter_isin :: "frame \<Rightarrow> string list \<Rightarrow> frame" where
  "filter_isin df available =
     take_rows (filter (\<lambda>i. exp_id df ! i \<in> set available) [0..<nrows df]) df"

definition aggregate_to_experiment_level :: "data \<Rightarrow> error + (frame \<times> agg_msg list)" where
  "aggregate_to_experiment_level d =
     (case tables d ''doe'' of
        None \<Rightarrow> Inl RuntimeError
      | Some doe \<Rightarrow>
     if empty_frame doe then Inl RuntimeError
     else case tables d ''df_process'' of
        None \<Rightarrow> Inl RuntimeError
      | Some df_process \<Rightarrow>
     if empty_frame df_process then Inl RuntimeError
     else case indicators d of
        None \<Rightarrow> Inl RuntimeError
      | Some inds \<Rightarrow>
     (let available_exp_ids = remdups (exp_id df_process)
      in if available_exp_ids = [] then Inr (empty_DataFrame, [NoExperiments])
         else
           (let df_experiments = filter_isin doe available_exp_ids
            in if empty_frame df_experiments then
                 Inr (empty_DataFrame, [NoMatchingExperiments])
               else
                 (case aggregate_loop d inds (df_experiments, [], []) of
                    (df1, missing, msgs) \<Rightarrow>
                      bind_err (indicator_cols_of inds missing) (\<lambda>indicator_cols.
                        if indicator_cols \<noteq> [] then
                          bind_err (round_columns df1 indicator_cols) (\<lambda>df2. Inr (df2, msgs))
                        else Inr (df1, msgs @ [NoneAggregated]))))))"

text \<open>The experiment ids of the table that the aggregation returns.\<close>

definition experiment_ids_of :: "error + (frame \<times> agg_msg list) \<Rightarrow> string list option" where
  "experiment_ids_of res = (case res of Inl e \<Rightarrow> None | Inr p \<Rightarrow> Some (exp_id (fst p)))"

definition value_at :: "frame \<Rightarrow> string \<Rightarrow> nat \<Rightarrow> rat option" where
  "value_at df c k = (case cols df c of Some (Floats xs) \<Rightarrow> Some (xs ! k) | _ \<Rightarrow> None)"

text \<open>Invariants of the aggregation loop. The column \<open>c\<close> holds 0 in every row of
  experiment \<open>e\<close>:\<close>

definition zero_for :: "string \<Rightarrow> string \<Rightarrow> frame \<Rightarrow> bool" where
  "zero_for c e df =
     (\<exists>xs. cols df c = Some (Floats xs) \<and> length xs = nrows df \<and>
           (\<forall>k<nrows df. exp_id df ! k = e \<longrightarrow> xs ! k = 0))"

text \<open>The indicators processed so far that are not in \<^verbatim>\<open>missing_indicators\<close> have
  their column:\<close>

definition cols_present :: "indicator list \<Rightarrow> agg_state \<Rightarrow> bool" where
  "cols_present prev st =
     (\<forall>ind\<in>set prev. \<forall>i. indicator_id ind = Some i \<longrightarrow> i \<notin> set (fst (snd st))
        \<longrightarrow> cols (fst st) i \<noteq> None)"

text \<open>The columns of the table are those of the design table and those of the indicators
  processed so far:\<close>

definition cols_within :: "frame \<Rightarrow> indicator list \<Rightarrow> agg_state \<Rightarrow> bool" where
  "cols_within doe prev st =
     (\<forall>c. cols (fst st) c \<noteq> None \<longrightarrow>
          cols doe c \<noteq> None \<or> (\<exists>ind\<in>set prev. indicator_id ind = Some c))"

text \<open>
  Sparse data: three designed experiments; the process table has rows of the first two
  only, the product table rows of the first and the third.
\<close>

definition IND05 :: indicator where
  "IND05 = \<lparr>indicator_id = Some ''IND05'', target_dataframe = Some ''df_product'',
     aggregation = Some ''average'', threshold = Some (7 / 10), direction = Some ''maximize'',
     weight = Some (1 / 2), category = Some ''environmental''\<rparr>"

definition sparse_doe :: frame where
  "sparse_doe =
     \<lparr>exp_id = [''exp001'', ''exp002'', ''exp003''], cols = [''automation_level'' \<mapsto> Ints [1, 2, 3]]\<rparr>"

definition sparse_process :: frame where
  "sparse_process =
     \<lparr>exp_id = [''exp001'', ''exp001'', ''exp002''], cols = [''IND01'' \<mapsto> Floats [50, 75, 60]]\<rparr>"

definition sparse_product :: frame where
  "sparse_product =
     \<lparr>exp_id = [''exp001'', ''exp003''], cols = [''IND05'' \<mapsto> Floats [2, 4]]\<rparr>"

definition sparse_data :: data where
  "sparse_data =
     no_data\<lparr>tables := [''doe'' \<mapsto> sparse_doe, ''df_process'' \<mapsto> sparse_process,
                        ''df_product'' \<mapsto> sparse_product],
             indicators := Some [IND01, IND05]\<rparr>"






section \<open>Properties of threshold filtering\<close>

lemma threshold_step_inv: "thr_inv st \<Longrightarrow> thr_inv (threshold_step ind st)"
  by (auto simp: thr_inv_def threshold_step_def set_col_def split: prod.splits option.splits)

lemma threshold_loop_inv: "thr_inv st \<Longrightarrow> thr_inv (threshold_loop inds st)"
  by (induction inds arbitrary: st) (auto simp: threshold_step_inv)



lemma select_bools_ok:
  "\<forall>c\<in>set cs. \<exists>bs. cols df c = Some (Bools bs) \<Longrightarrow>
   select_bools df cs = Inr (map (\<lambda>c. case cols df c of Some (Bools bs) \<Rightarrow> bs | _ \<Rightarrow> []) cs)"
  by (induction cs) auto

lemma threshold_step_exp_id: "exp_id (fst (threshold_step ind st)) = exp_id (fst st)"
  by (auto simp: threshold_step_def set_col_def split: prod.splits option.splits)

lemma threshold_loop_exp_id: "exp_id (fst (threshold_loop inds st)) = exp_id (fst st)"
  by (induction inds arbitrary: st) (auto simp: threshold_step_exp_id)

lemma threshold_step_other:
  "\<forall>i. indicator_id ind = Some i \<longrightarrow> i @ THRESHOLD_SUFFIX \<noteq> c \<Longrightarrow>
   cols (fst (threshold_step ind st)) c = cols (fst st) c"
  by (auto simp: threshold_step_def set_col_def split: prod.splits option.splits)

lemma threshold_loop_other:
  "\<forall>ind\<in>set inds. \<forall>i. indicator_id ind = Some i \<longrightarrow> i @ THRESHOLD_SUFFIX \<noteq> c \<Longrightarrow>
   cols (fst (threshold_loop inds st)) c = cols (fst st) c"
  by (induction inds arbitrary: st) (auto simp: threshold_step_other)

lemma suffix_not_reserved:
  "i @ THRESHOLD_SUFFIX \<noteq> ''threshold_violations''" "i @ THRESHOLD_SUFFIX \<noteq> ''is_feasible''"
  by (auto simp: THRESHOLD_SUFFIX_def dest: arg_cong[where f=last])

lemma threshold_step_sets:
  assumes "indicator_id ind = Some i" "threshold ind = Some t" "direction ind = Some d"
    "cols (fst st) i = Some col" "numeric col = Some vs"
  shows "cols (fst (threshold_step ind st)) (i @ THRESHOLD_SUFFIX)
         = Some (Bools (threshold_flags d t vs))"
proof (cases st)
  case (fields df tc sk)
  with assms show ?thesis
    by (simp add: threshold_step_def set_col_def)
qed

lemma threshold_loop_flag:
  assumes "ind \<in> set inds" "indicator_id ind = Some i" "threshold ind = Some t"
    "direction ind = Some d" "cols (fst st) i = Some col" "numeric col = Some vs"
    "\<forall>j\<in>set inds. \<forall>k. indicator_id j = Some k \<longrightarrow> k @ THRESHOLD_SUFFIX \<noteq> i"
    "\<forall>j\<in>set inds. indicator_id j = Some i \<longrightarrow> j = ind"
  shows "cols (fst (threshold_loop inds st)) (i @ THRESHOLD_SUFFIX)
         = Some (Bools (threshold_flags d t vs))"
  using assms(1,5,7,8)
proof (induction inds arbitrary: st)
  case Nil
  then show ?case by simp
next
  case (Cons j inds)
  have "\<forall>k. indicator_id j = Some k \<longrightarrow> k @ THRESHOLD_SUFFIX \<noteq> i"
    using Cons.prems(3) by simp
  then have "cols (fst (threshold_step j st)) i = cols (fst st) i"
    by (rule threshold_step_other)
  then have keep: "cols (fst (threshold_step j st)) i = Some col"
    using Cons.prems(2) by simp
  have p6: "\<forall>j\<in>set inds. \<forall>k. indicator_id j = Some k \<longrightarrow> k @ THRESHOLD_SUFFIX \<noteq> i"
    using Cons.prems(3) by simp
  have p7: "\<forall>j\<in>set inds. indicator_id j = Some i \<longrightarrow> j = ind"
    using Cons.prems(4) by simp
  show ?case
  proof (cases "ind \<in> set inds")
    case True
    have "cols (fst (threshold_loop inds (threshold_step j st))) (i @ THRESHOLD_SUFFIX)
          = Some (Bools (threshold_flags d t vs))"
      by (rule Cons.IH [OF True keep p6 p7])
    then show ?thesis by simp
  next
    case False
    with Cons.prems(1) have j: "j = ind" by simp
    have step: "cols (fst (threshold_step j st)) (i @ THRESHOLD_SUFFIX)
          = Some (Bools (threshold_flags d t vs))"
      unfolding j by (rule threshold_step_sets [OF assms(2,3,4) Cons.prems(2) assms(6)])
    have "\<forall>j'\<in>set inds. \<forall>k. indicator_id j' = Some k \<longrightarrow>
            k @ THRESHOLD_SUFFIX \<noteq> i @ THRESHOLD_SUFFIX"
      using p7 False by auto
    then have "cols (fst (threshold_loop inds (threshold_step j st))) (i @ THRESHOLD_SUFFIX)
          = cols (fst (threshold_step j st)) (i @ THRESHOLD_SUFFIX)"
      by (rule threshold_loop_other)
    with step show ?thesis by simp
  qed
qed


text \<open>The frame that \<^verbatim>\<open>apply_threshold_filters\<close> returns, in terms of the state the
  loop ends in: the function never fails once the configuration has its key.\<close>

lemma apply_threshold_filters_result:
  assumes "\<not> empty_frame df" "threshold_loop inds (df, [], []) = (df1, tcols, sk)"
  defines "f \<equiv> (\<lambda>c. case cols df1 c of Some (Bools bs) \<Rightarrow> bs | _ \<Rightarrow> [])"
  defines "vs \<equiv> count_false (nrows df) (map f tcols)"
  shows "apply_threshold_filters df (Some inds) =
       Inr (set_col (set_col df1 ''threshold_violations'' (Ints vs))
              ''is_feasible'' (Bools (map (\<lambda>v. v = 0) vs)))"
proof -
  have "thr_inv (df, [], [])" by (simp add: thr_inv_def)
  then have "thr_inv (threshold_loop inds (df, [], []))" by (rule threshold_loop_inv)
  then have bools: "\<forall>c\<in>set tcols. \<exists>bs. cols df1 c = Some (Bools bs)"
    by (simp add: thr_inv_def assms(2))
  have sb: "select_bools df1 tcols = Inr (map f tcols)"
    unfolding f_def using bools by (rule select_bools_ok)
  have n1: "nrows df1 = nrows df"
    using threshold_loop_exp_id [of inds "(df, [], [])"] by (simp add: assms(2) nrows_def)
  show ?thesis
  proof (cases "tcols = []")
    case True
    then have "vs = replicate (nrows df) 0"
      by (simp add: vs_def count_false_def map_replicate_const)
    then show ?thesis
      using assms(1) True by (simp add: apply_threshold_filters_def assms(2) n1)
  next
    case False
    then show ?thesis
      using assms(1) by (simp add: apply_threshold_filters_def assms(2) sb n1 vs_def Let_def)
  qed
qed

text \<open>
  C2. For an indicator of the configuration whose three keys are present and whose
  column is numeric, the flag column \<open>{indicator_id}_in_threshold\<close> of the result holds,
  row by row, \<open>value \<le> threshold\<close> when the direction is \<open>minimize\<close>,
  \<open>value \<ge> threshold\<close> when it is \<open>maximize\<close>, and \<open>value \<le> threshold\<close> for every
  other direction string. The indicator ids are unique and no id is the name of another
  indicator's flag column.
\<close>

theorem in_threshold_flag:
  assumes "\<not> empty_frame df" "ind \<in> set inds" "indicator_id ind = Some i"
    "threshold ind = Some t" "direction ind = Some d"
    "cols df i = Some col" "numeric col = Some vs"
    "\<forall>j\<in>set inds. \<forall>k. indicator_id j = Some k \<longrightarrow> k @ THRESHOLD_SUFFIX \<noteq> i"
    "\<forall>j\<in>set inds. indicator_id j = Some i \<longrightarrow> j = ind"
  shows "\<exists>df'. apply_threshold_filters df (Some inds) = Inr df' \<and>
     cols df' (i @ THRESHOLD_SUFFIX) =
       Some (Bools (if d = ''minimize'' then map (\<lambda>v. v \<le> t) vs
                    else if d = ''maximize'' then map (\<lambda>v. t \<le> v) vs
                    else map (\<lambda>v. v \<le> t) vs))"
proof -
  obtain df1 tcols sk where l: "threshold_loop inds (df, [], []) = (df1, tcols, sk)"
    using prod_cases3 by blast
  note r = apply_threshold_filters_result [OF assms(1) l]
  have "cols (fst (df, [], [])) i = Some col" using assms(6) by simp
  from threshold_loop_flag [OF assms(2,3,4,5) this assms(7,8,9)]
  have f: "cols df1 (i @ THRESHOLD_SUFFIX) = Some (Bools (threshold_flags d t vs))"
    by (simp add: l)
  have n: "''is_feasible'' \<noteq> i @ THRESHOLD_SUFFIX" "''threshold_violations'' \<noteq> i @ THRESHOLD_SUFFIX"
    using suffix_not_reserved [of i] by metis+
  have g: "cols (set_col (set_col df1 ''threshold_violations'' X) ''is_feasible'' Y)
             (i @ THRESHOLD_SUFFIX) = Some (Bools (threshold_flags d t vs))" for X Y
    using f n by (simp add: set_col_def)
  have h: "threshold_flags d t vs = (if d = ''minimize'' then map (\<lambda>v. v \<le> t) vs
                    else if d = ''maximize'' then map (\<lambda>v. t \<le> v) vs
                    else map (\<lambda>v. v \<le> t) vs)"
    by (simp add: threshold_flags_def)
  show ?thesis
    unfolding r h [symmetric]
    by (rule exI, rule conjI, rule refl, rule g)
qed

theorem in_threshold_flag_witness:
  "\<exists>df'. apply_threshold_filters (experiments3 [125, 1500, 110]) (Some [IND01]) = Inr df' \<and>
     cols df' ''IND01_in_threshold'' = Some (Bools [True, False, True])"
  using in_threshold_flag [of "experiments3 [125, 1500, 110]" IND01 "[IND01]" "''IND01''"
      1000 "''minimize''" "Floats [125, 1500, 110]" "[125, 1500, 110]"]
  by (simp add: experiments3_def IND01_def empty_frame_def numeric_def THRESHOLD_SUFFIX_def)



section \<open>Properties of normalization\<close>

lemma round_half_even_of_int: "round_half_even (of_int n) = n"
  by (simp add: round_half_even_def)

lemma round_decimals_one: "round_decimals 2 1 = 1"
proof -
  have "round_half_even (of_int 100) = 100" by (rule round_half_even_of_int)
  then show ?thesis by (simp add: round_decimals_def)
qed

lemma normalize_step_other:
  "\<forall>i. indicator_id ind = Some i \<longrightarrow> i @ NORMALIZED_SUFFIX \<noteq> c \<Longrightarrow>
   cols (fst (normalize_step ind st)) c = cols (fst st) c"
  by (cases st) (auto simp: normalize_step_def set_col_def split: option.splits)

lemma normalize_loop_other:
  "\<forall>ind\<in>set inds. \<forall>i. indicator_id ind = Some i \<longrightarrow> i @ NORMALIZED_SUFFIX \<noteq> c \<Longrightarrow>
   cols (fst (normalize_loop inds st)) c = cols (fst st) c"
  by (induction inds arbitrary: st) (auto simp: normalize_step_other)

lemma normalize_step_sets:
  assumes "indicator_id ind = Some i" "direction ind = Some d" "threshold ind = Some t"
    "cols (fst st) i = Some col" "numeric col = Some vs"
  shows "cols (fst (normalize_step ind st)) (i @ NORMALIZED_SUFFIX)
         = Some (Floats (normalize_column d t vs))"
proof (cases st)
  case (Pair df sk)
  with assms show ?thesis
    by (simp add: normalize_step_def set_col_def)
qed

lemma normalize_loop_col:
  assumes "ind \<in> set inds" "indicator_id ind = Some i" "direction ind = Some d"
    "threshold ind = Some t" "cols (fst st) i = Some col" "numeric col = Some vs"
    "\<forall>j\<in>set inds. \<forall>k. indicator_id j = Some k \<longrightarrow> k @ NORMALIZED_SUFFIX \<noteq> i"
    "\<forall>j\<in>set inds. indicator_id j = Some i \<longrightarrow> j = ind"
  shows "cols (fst (normalize_loop inds st)) (i @ NORMALIZED_SUFFIX)
         = Some (Floats (normalize_column d t vs))"
  using assms(1,5,7,8)
proof (induction inds arbitrary: st)
  case Nil
  then show ?case by simp
next
  case (Cons j inds)
  have "\<forall>k. indicator_id j = Some k \<longrightarrow> k @ NORMALIZED_SUFFIX \<noteq> i"
    using Cons.prems(3) by simp
  then have "cols (fst (normalize_step j st)) i = cols (fst st) i"
    by (rule normalize_step_other)
  then have keep: "cols (fst (normalize_step j st)) i = Some col"
    using Cons.prems(2) by simp
  have p6: "\<forall>j\<in>set inds. \<forall>k. indicator_id j = Some k \<longrightarrow> k @ NORMALIZED_SUFFIX \<noteq> i"
    using Cons.prems(3) by simp
  have p7: "\<forall>j\<in>set inds. indicator_id j = Some i \<longrightarrow> j = ind"
    using Cons.prems(4) by simp
  show ?case
  proof (cases "ind \<in> set inds")
    case True
    have "cols (fst (normalize_loop inds (normalize_step j st))) (i @ NORMALIZED_SUFFIX)
          = Some (Floats (normalize_column d t vs))"
      by (rule Cons.IH [OF True keep p6 p7])
    then show ?thesis by simp
  next
    case False
    with Cons.prems(1) have j: "j = ind" by simp
    have step: "cols (fst (normalize_step j st)) (i @ NORMALIZED_SUFFIX)
          = Some (Floats (normalize_column d t vs))"
      unfolding j by (rule normalize_step_sets [OF assms(2,3,4) Cons.prems(2) assms(6)])
    have "\<forall>j'\<in>set inds. \<forall>k. indicator_id j' = Some k \<longrightarrow>
            k @ NORMALIZED_SUFFIX \<noteq> i @ NORMALIZED_SUFFIX"
      using p7 False by auto
    then have "cols (fst (normalize_loop inds (normalize_step j st))) (i @ NORMALIZED_SUFFIX)
          = cols (fst (normalize_step j st)) (i @ NORMALIZED_SUFFIX)"
      by (rule normalize_loop_other)
    with step show ?thesis by simp
  qed
qed

lemma normalize_indicators_col:
  assumes "\<not> empty_frame df" "ind \<in> set inds" "indicator_id ind = Some i"
    "direction ind = Some d" "threshold ind = Some t" "cols df i = Some col"
    "numeric col = Some vs"
    "\<forall>j\<in>set inds. \<forall>k. indicator_id j = Some k \<longrightarrow> k @ NORMALIZED_SUFFIX \<noteq> i"
    "\<forall>j\<in>set inds. indicator_id j = Some i \<longrightarrow> j = ind"
  shows "normalize_indicators df (Some inds) = Inr (fst (normalize_loop inds (df, [])))"
    and "cols (fst (normalize_loop inds (df, []))) (i @ NORMALIZED_SUFFIX)
           = Some (Floats (normalize_column d t vs))"
proof -
  show "normalize_indicators df (Some inds) = Inr (fst (normalize_loop inds (df, [])))"
    using assms(1) by (simp add: normalize_indicators_def)
  have "cols (fst (df, [])) i = Some col" using assms(6) by simp
  from normalize_loop_col [OF assms(2,3,4,5) this assms(7,8,9)]
  show "cols (fst (normalize_loop inds (df, []))) (i @ NORMALIZED_SUFFIX)
         = Some (Floats (normalize_column d t vs))" .
qed

lemma normalize_column_general:
  assumes "1 / 10 ^ 10 \<le> \<bar>best_value d vs - worst_value d t vs\<bar>"
  shows "normalize_column d t vs =
     (if d = ''maximize'' then
        map (\<lambda>v. round_decimals 2 ((v - worst_value d t vs) / (best_value d vs - worst_value d t vs))) vs
      else
        map (\<lambda>v. round_decimals 2 ((worst_value d t vs - v) / (worst_value d t vs - best_value d vs))) vs)"
proof -
  have nd: "\<not> \<bar>best_value d vs - worst_value d t vs\<bar> < 1 / 10 ^ 10" using assms by simp
  show ?thesis
    unfolding normalize_column_def Let_def using nd by (simp only: if_False) simp
qed

lemma normalize_column_best:
  assumes "1 / 10 ^ 10 \<le> \<bar>best_value d vs - worst_value d t vs\<bar>" "r < length vs"
    "vs ! r = best_value d vs"
  shows "normalize_column d t vs ! r = 1"
proof -
  define B where "B = best_value d vs"
  define W where "W = worst_value d t vs"
  have ne: "B \<noteq> W" using assms(1) unfolding B_def W_def by auto
  have q: "(W - B) / (W - B) = 1" "(B - W) / (B - W) = 1" using ne by simp_all
  have vr: "vs ! r = B" using assms(3) by (simp add: B_def)
  show ?thesis
    unfolding normalize_column_general [OF assms(1)] B_def [symmetric] W_def [symmetric]
    using assms(2) vr q by (simp add: round_decimals_one)
qed

lemma length_normalize_column: "length (normalize_column d t vs) = length vs"
  unfolding normalize_column_def Let_def by (simp only: if_distrib [of length] length_map length_replicate if_cancel)

lemma normalize_column_const:
  assumes "set vs = {v}"
  shows "normalize_column d t vs = replicate (length vs) 1"
proof (rule nth_equalityI)
  show "length (normalize_column d t vs) = length (replicate (length vs) 1)"
    by (simp add: length_normalize_column)
next
  fix r assume "r < length (normalize_column d t vs)"
  then have r: "r < length vs" by (simp add: length_normalize_column)
  have b: "best_value d vs = v" using assms by (simp add: best_value_def)
  have vr: "vs ! r = v" using assms r by (metis nth_mem singletonD)
  have "normalize_column d t vs ! r = 1"
  proof (cases "\<bar>best_value d vs - worst_value d t vs\<bar> < 1 / 10 ^ 10")
    case True
    then show ?thesis using r by (simp add: normalize_column_def Let_def)
  next
    case False
    then have "1 / 10 ^ 10 \<le> \<bar>best_value d vs - worst_value d t vs\<bar>" by simp
    then show ?thesis using r vr b by (intro normalize_column_best) simp_all
  qed
  then show "normalize_column d t vs ! r = replicate (length vs) 1 ! r" using r by simp
qed



text \<open>
  C5. When every experiment has the same value \<open>v\<close> for an indicator, every normalized
  value of that indicator is exactly 1, whatever the direction and the threshold: both in
  the degenerate branch and when \<open>v\<close> violates the threshold, so that the worst bound is
  the threshold and the general formula is applied.
\<close>

theorem normalized_identical:
  assumes "\<not> empty_frame df" "ind \<in> set inds" "indicator_id ind = Some i"
    "direction ind = Some d" "threshold ind = Some t" "cols df i = Some col"
    "numeric col = Some vs"
    "\<forall>j\<in>set inds. \<forall>k. indicator_id j = Some k \<longrightarrow> k @ NORMALIZED_SUFFIX \<noteq> i"
    "\<forall>j\<in>set inds. indicator_id j = Some i \<longrightarrow> j = ind"
    "set vs = {v}"
  shows "\<exists>df'. normalize_indicators df (Some inds) = Inr df' \<and>
     cols df' (i @ NORMALIZED_SUFFIX) = Some (Floats (replicate (length vs) 1))"
proof -
  note c = normalize_indicators_col [OF assms(1-9)]
  show ?thesis
    apply (rule exI [of _ "fst (normalize_loop inds (df, []))"])
    apply (rule conjI)
     apply (rule c(1))
    apply (simp only: c(2) normalize_column_const [OF assms(10)])
    done
qed

theorem normalized_identical_witness:
  "(\<exists>df'. normalize_indicators (experiments3 [1500, 1500, 1500]) (Some [IND01]) = Inr df' \<and>
     cols df' ''IND01_normalized'' = Some (Floats [1, 1, 1])) \<and>
   \<not> \<bar>best_value ''minimize'' [1500, 1500, 1500] - worst_value ''minimize'' 1000 [1500, 1500, 1500]\<bar>
       < 1 / 10 ^ 10"
proof -
  let ?vs = "[1500, 1500, 1500] :: rat list"
  have s: "set ?vs = {1500}" by simp
  from normalized_identical [of "experiments3 ?vs" IND01 "[IND01]" "''IND01''"
      "''minimize''" 1000 "Floats ?vs" ?vs 1500, OF _ _ _ _ _ _ _ _ _ s]
  have "\<exists>df'. normalize_indicators (experiments3 ?vs) (Some [IND01]) = Inr df' \<and>
     cols df' (''IND01'' @ NORMALIZED_SUFFIX) = Some (Floats (replicate (length ?vs) 1))"
    by (simp add: experiments3_def IND01_def empty_frame_def numeric_def NORMALIZED_SUFFIX_def)
  moreover have "replicate (length ?vs) (1::rat) = [1, 1, 1]" by (simp add: numeral_3_eq_3)
  moreover have "\<not> \<bar>best_value ''minimize'' ?vs - worst_value ''minimize'' 1000 ?vs\<bar>
       < 1 / 10 ^ 10"
    by (simp add: best_value_def worst_value_def worst_value_raw_def)
  ultimately show ?thesis by (simp add: NORMALIZED_SUFFIX_def)
qed

section \<open>Properties of the total score\<close>

lemma round_decimals_zero: "round_decimals p 0 = 0"
  by (simp add: round_decimals_def round_half_even_def)









section \<open>Properties of ranking\<close>

lemma length_assign_rows: "length (assign_rows fs rs) = length fs"
  by (induction fs rs rule: assign_rows.induct) auto

lemma assign_rows_nth:
  assumes "length fs = length ss" "i < length fs"
  shows "assign_rows fs (map g (select_rows fs ss)) ! i = (if fs ! i then Some (g (ss ! i)) else None)"
  using assms
proof (induction fs ss arbitrary: i rule: list_induct2)
  case Nil
  then show ?case by simp
next
  case (Cons f fs s ss)
  show ?case
  proof (cases i)
    case 0
    then show ?thesis by (cases f) simp_all
  next
    case (Suc k)
    with Cons.prems have "k < length fs" by simp
    from Cons.IH [OF this] Suc show ?thesis by (cases f) simp_all
  qed
qed

lemma select_rows_zip:
  "length fs = length ss \<Longrightarrow> select_rows fs ss = map snd (filter fst (zip fs ss))"
  by (induction fs ss rule: list_induct2) auto

lemma count_selected:
  assumes "length fs = length ss"
  shows "length (filter P (select_rows fs ss)) = card {j. j < length ss \<and> fs ! j \<and> P (ss ! j)}"
proof -
  have "length (filter P (select_rows fs ss))
        = length (filter (\<lambda>p. fst p \<and> P (snd p)) (zip fs ss))"
    by (simp add: select_rows_zip [OF assms] filter_map o_def conj_commute)
  also have "\<dots> = card {j. j < length (zip fs ss) \<and> fst (zip fs ss ! j) \<and> P (snd (zip fs ss ! j))}"
    by (simp add: length_filter_conv_card)
  also have "{j. j < length (zip fs ss) \<and> fst (zip fs ss ! j) \<and> P (snd (zip fs ss ! j))}
        = {j. j < length ss \<and> fs ! j \<and> P (ss ! j)}"
    using assms by auto
  finally show ?thesis .
qed

lemma rank_min_desc_nth:
  "i < length ss \<Longrightarrow> rank_min_desc ss ! i = 1 + card {j. j < length ss \<and> ss ! i < ss ! j}"
  by (simp add: rank_min_desc_def length_filter_conv_card)

lemma select_rows_none:
  "length fs = length ss \<Longrightarrow> filter (\<lambda>f. f) fs = [] \<Longrightarrow> i < length fs \<Longrightarrow> \<not> fs ! i"
  by (metis filter_empty_conv nth_mem)

text \<open>The mask that \<^verbatim>\<open>rank_experiments\<close> ranks with: the column
  \<^verbatim>\<open>is_feasible\<close>, or all true when the frame has none.\<close>

lemma rank_experiments_cols:
  assumes "\<not> empty_frame df" "cols df TOTAL_SCORE_COLUMN = Some tc" "numeric tc = Some ss"
    "cols df FEASIBILITY_COLUMN = None \<and> fs = replicate (nrows df) True
     \<or> cols df FEASIBILITY_COLUMN = Some (Bools fs)"
  shows "cols (rank_experiments df) FEASIBILITY_COLUMN = Some (Bools fs)"
    and "cols (rank_experiments df) RANK_ALL_COLUMN = Some (Ints (rank_min_desc ss))"
    and "cols (rank_experiments df) RANK_FEASIBLE_COLUMN =
           Some (NInts (if 0 < length (filter (\<lambda>f. f) fs)
                        then assign_rows fs (rank_min_desc (select_rows fs ss))
                        else replicate (nrows df) None))"
    and "cols (rank_experiments df) TOTAL_SCORE_COLUMN = Some tc"
  using assms
  by (auto simp: rank_experiments_def rank_feasible_def set_col_def Let_def nrows_def
      FEASIBILITY_COLUMN_def RANK_ALL_COLUMN_def RANK_FEASIBLE_COLUMN_def TOTAL_SCORE_COLUMN_def)

text \<open>
  C6. After ranking, for every experiment row: \<^verbatim>\<open>rank_all\<close> is 1 plus the number
  of experiments with a strictly higher total score, so that ties share a rank;
  \<^verbatim>\<open>rank\<close> is non-null exactly when the row is feasible; for a feasible row it is 1
  plus the number of feasible experiments with a strictly higher score; and a feasible row
  has rank 1 exactly when no feasible experiment scores higher. The frame has a numeric
  score column and a boolean feasibility column (or none: then every row counts as
  feasible), one entry per row.
\<close>

theorem dense_rank:
  assumes "cols df TOTAL_SCORE_COLUMN = Some tc" "numeric tc = Some ss" "length ss = nrows df"
    "cols df FEASIBILITY_COLUMN = None
     \<or> (\<exists>fs. cols df FEASIBILITY_COLUMN = Some (Bools fs) \<and> length fs = nrows df)"
  shows "\<forall>i<nrows df.
     total_at (rank_experiments df) i = Some (ss ! i) \<and>
     rank_all_at (rank_experiments df) i = Some (1 + card {j. j < nrows df \<and> ss ! i < ss ! j}) \<and>
     (rank_at (rank_experiments df) i \<noteq> None \<longleftrightarrow> feasible_at (rank_experiments df) i = Some True) \<and>
     (feasible_at (rank_experiments df) i = Some True \<longrightarrow>
        rank_at (rank_experiments df) i =
          Some (1 + card {j. j < nrows df \<and> feasible_at (rank_experiments df) j = Some True
                             \<and> ss ! i < ss ! j}) \<and>
        (rank_at (rank_experiments df) i = Some 1 \<longleftrightarrow>
           (\<forall>j<nrows df. feasible_at (rank_experiments df) j = Some True \<longrightarrow> ss ! j \<le> ss ! i)))"
proof (intro allI impI)
  fix i assume i: "i < nrows df"
  then have ne: "\<not> empty_frame df" by (auto simp: nrows_def empty_frame_def)
  define df' where "df' = rank_experiments df"
  obtain fs where fs: "cols df FEASIBILITY_COLUMN = None \<and> fs = replicate (nrows df) True
     \<or> cols df FEASIBILITY_COLUMN = Some (Bools fs)" and lf: "length fs = nrows df"
    using assms(4) by auto
  note c = rank_experiments_cols [OF ne assms(1,2) fs, folded df'_def]
  have lfs: "length fs = length ss" using lf assms(3) by simp
  have fe: "feasible_at df' j = Some (fs ! j)" for j
    by (simp add: feasible_at_def c(1) [unfolded FEASIBILITY_COLUMN_def])
  have t: "total_at df' i = Some (ss ! i)"
    by (simp add: total_at_def c(4) assms(2))
  have ra: "rank_all_at df' i = Some (1 + card {j. j < nrows df \<and> ss ! i < ss ! j})"
    using i assms(3) by (simp add: rank_all_at_def c(2) rank_min_desc_nth)
  define k where "k = card {j. j < nrows df \<and> fs ! j \<and> ss ! i < ss ! j}"
  have r: "rank_at df' i = (if fs ! i then Some (1 + k) else None)"
  proof (cases "0 < length (filter (\<lambda>f. f) fs)")
    case True
    have "assign_rows fs (rank_min_desc (select_rows fs ss)) ! i
          = (if fs ! i then Some (1 + length (filter (\<lambda>t. ss ! i < t) (select_rows fs ss))) else None)"
      unfolding rank_min_desc_def using lfs i lf by (intro assign_rows_nth) simp_all
    then show ?thesis using True
      by (simp add: rank_at_def c(3) count_selected [OF lfs] k_def assms(3))
  next
    case False
    then have "filter (\<lambda>f. f) fs = []" by simp
    from select_rows_none [OF lfs this] i lf have "\<not> fs ! i" by simp
    then show ?thesis using False i by (simp add: rank_at_def c(3))
  qed
  have fin: "finite {j. j < nrows df \<and> fs ! j \<and> ss ! i < ss ! j}" by simp
  have k0: "k = 0 \<longleftrightarrow> (\<forall>j<nrows df. fs ! j \<longrightarrow> ss ! j \<le> ss ! i)"
    unfolding k_def card_eq_0_iff using fin by (auto simp: not_less)
  show "total_at (rank_experiments df) i = Some (ss ! i) \<and>
     rank_all_at (rank_experiments df) i = Some (1 + card {j. j < nrows df \<and> ss ! i < ss ! j}) \<and>
     (rank_at (rank_experiments df) i \<noteq> None \<longleftrightarrow> feasible_at (rank_experiments df) i = Some True) \<and>
     (feasible_at (rank_experiments df) i = Some True \<longrightarrow>
        rank_at (rank_experiments df) i =
          Some (1 + card {j. j < nrows df \<and> feasible_at (rank_experiments df) j = Some True
                             \<and> ss ! i < ss ! j}) \<and>
        (rank_at (rank_experiments df) i = Some 1 \<longleftrightarrow>
           (\<forall>j<nrows df. feasible_at (rank_experiments df) j = Some True \<longrightarrow> ss ! j \<le> ss ! i)))"
    unfolding df'_def [symmetric] fe
    using t ra r k0 by (simp add: k_def)
qed

theorem dense_rank_witness:
  "total_at (rank_experiments scored4) 0 = Some (9 / 10) \<and>
   rank_all_at (rank_experiments scored4) 0 = Some 1 \<and>
   rank_at (rank_experiments scored4) 0 = None \<and>
   feasible_at (rank_experiments scored4) 0 = Some False \<and>
   rank_all_at (rank_experiments scored4) 2 = Some 2 \<and>
   rank_all_at (rank_experiments scored4) 3 = Some 2 \<and>
   rank_at (rank_experiments scored4) 2 = Some 1 \<and>
   rank_at (rank_experiments scored4) 3 = Some 1 \<and>
   rank_all_at (rank_experiments scored4) 1 = Some 4 \<and>
   rank_at (rank_experiments scored4) 1 = Some 3"
proof -
  let ?ss = "[9 / 10, 1 / 2, 7 / 10, 7 / 10] :: rat list"
  have n: "nrows scored4 = 4" by (simp add: nrows_def scored4_def)
  have a1: "cols scored4 TOTAL_SCORE_COLUMN = Some (Floats ?ss)"
    by (simp add: scored4_def TOTAL_SCORE_COLUMN_def)
  have a2: "numeric (Floats ?ss) = Some ?ss" by (simp add: numeric_def)
  have a3: "length ?ss = nrows scored4" by (simp add: n)
  have a4: "cols scored4 FEASIBILITY_COLUMN = None
     \<or> (\<exists>fs. cols scored4 FEASIBILITY_COLUMN = Some (Bools fs) \<and> length fs = nrows scored4)"
    by (simp add: scored4_def FEASIBILITY_COLUMN_def nrows_def)
  note d = dense_rank [OF a1 a2 a3 a4, unfolded n]
  have f: "feasible_at (rank_experiments scored4) j = Some ([False, True, True, True] ! j)" for j
    by (simp add: feasible_at_def rank_experiments_def rank_feasible_def set_col_def Let_def
        scored4_def empty_frame_def FEASIBILITY_COLUMN_def RANK_ALL_COLUMN_def
        RANK_FEASIBLE_COLUMN_def TOTAL_SCORE_COLUMN_def numeric_def)
  have ra: "cols (rank_experiments scored4) RANK_ALL_COLUMN = Some (Ints [1, 4, 2, 2])"
    by (simp add: rank_experiments_def rank_feasible_def set_col_def Let_def
        scored4_def empty_frame_def FEASIBILITY_COLUMN_def RANK_ALL_COLUMN_def
        RANK_FEASIBLE_COLUMN_def TOTAL_SCORE_COLUMN_def numeric_def rank_min_desc_def)
  have rf: "cols (rank_experiments scored4) RANK_FEASIBLE_COLUMN
      = Some (NInts [None, Some 3, Some 1, Some 1])"
    by (simp add: rank_experiments_def rank_feasible_def set_col_def Let_def
        scored4_def empty_frame_def FEASIBILITY_COLUMN_def RANK_ALL_COLUMN_def
        RANK_FEASIBLE_COLUMN_def TOTAL_SCORE_COLUMN_def numeric_def rank_min_desc_def)
  from d [rule_format, of 0] have
    t0: "total_at (rank_experiments scored4) 0 = Some (9 / 10)" and
    r0: "rank_at (rank_experiments scored4) 0 = None"
    unfolding f by simp_all
  have v: "rank_all_at (rank_experiments scored4) 0 = Some 1"
    "rank_all_at (rank_experiments scored4) 1 = Some 4"
    "rank_all_at (rank_experiments scored4) 2 = Some 2"
    "rank_all_at (rank_experiments scored4) 3 = Some 2"
    "rank_at (rank_experiments scored4) 1 = Some 3"
    "rank_at (rank_experiments scored4) 2 = Some 1"
    "rank_at (rank_experiments scored4) 3 = Some 1"
    by (simp_all add: rank_all_at_def rank_at_def ra rf numeral_3_eq_3 numeral_2_eq_2)
  from t0 r0 v f [of 0] show ?thesis by simp
qed

section \<open>Properties of variable resolution\<close>

lemma bind_err_simps [simp]:
  "bind_err (Inl e) f = Inl e" "bind_err (Inr x) f = f x"
  by (simp_all add: bind_err_def)

lemma require_simps [simp]: "require None = Inl KeyError" "require (Some v) = Inr v"
  by (simp_all add: require_def)

lemma range_lookup_find:
  assumes "\<forall>e\<in>set entries. wf_range_entry e"
  shows "range_lookup entries (Num q) value_key
         = Inr (map_option (entry_value value_key) (find (contains_quality q) entries))"
  using assms
proof (induction entries)
  case Nil
  then show ?case by simp
next
  case (Cons entry entries)
  from Cons.prems obtain kvs where kvs: "entry = Dct kvs"
    and mn: "numeric_or_missing (map_of kvs QUALITY_MIN)"
    and mx: "numeric_or_missing (map_of kvs QUALITY_MAX)"
    by (auto simp: wf_range_entry_def split: pyval.splits)
  from mn obtain a where a: "py_get entry QUALITY_MIN (Num 0) = Inr (Num a)" "entry_min entry = a"
    by (auto simp: numeric_or_missing_def py_get_def entry_min_def kvs
        split: option.splits pyval.splits)
  from mx obtain b where b: "py_get entry QUALITY_MAX (Num 1) = Inr (Num b)" "entry_max entry = b"
    by (auto simp: numeric_or_missing_def py_get_def entry_max_def kvs
        split: option.splits pyval.splits)
  have bt: "py_between (Num a) (Num q) (Num b) = Inr (contains_quality q entry)"
    by (simp add: py_between_def py_le_def contains_quality_def a(2) b(2))
  have v: "py_get entry value_key DEFAULT_VALUE = Inr (entry_value value_key entry)"
    by (simp add: py_get_def entry_value_def kvs split: option.splits)
  have ih: "range_lookup entries (Num q) value_key
         = Inr (map_option (entry_value value_key) (find (contains_quality q) entries))"
    using Cons.IH Cons.prems by simp
  show ?case
    by (simp add: a(1) b(1) bt v ih)
qed

lemma quality_range_lookup_found:
  assumes "\<forall>c\<in>set pre. other_component step c" "map_of cd COMPONENT_NAME = Some step"
    "walk_get (Dct cd) path (Lst []) = Inr (Lst entries)"
    "\<forall>e\<in>set entries. wf_range_entry e"
  shows "quality_range_lookup (pre @ Dct cd # post) step (Num q) path value_key
         = Inr (first_containing q value_key entries)"
  using assms(1)
proof (induction pre)
  case Nil
  show ?case
    using assms(2,3) range_lookup_find [OF assms(4), of q value_key]
    by (simp add: py_index_def first_containing_def found_or_default_def split: option.splits)
next
  case (Cons c pre)
  then obtain kvs n where "c = Dct kvs" "map_of kvs COMPONENT_NAME = Some n" "n \<noteq> step"
    by (auto simp: other_component_def split: pyval.splits option.splits)
  then show ?case using Cons by (simp add: py_index_def)
qed

lemma quality_threshold_lookup_found:
  assumes "\<forall>c\<in>set pre. other_component step c" "map_of cd COMPONENT_NAME = Some step"
    "map_of cd value_path = Some (Dct options)"
    "\<forall>e\<in>set (map snd options). wf_range_entry e"
  shows "quality_threshold_lookup (pre @ Dct cd # post) step (Num q) value_path value_key
         = Inr (first_containing q value_key (map snd options))"
  using assms(1)
proof (induction pre)
  case Nil
  show ?case
    using assms(2,3) range_lookup_find [OF assms(4), of q value_key]
    by (simp add: py_index_def py_get_def py_items_values_def first_containing_def
        found_or_default_def split: option.splits)
next
  case (Cons c pre)
  then obtain kvs n where "c = Dct kvs" "map_of kvs COMPONENT_NAME = Some n" "n \<noteq> step"
    by (auto simp: other_component_def split: pyval.splits option.splits)
  then show ?case using Cons by (simp add: py_index_def)
qed

text \<open>
  C10. In the resolution of a \<^verbatim>\<open>quality_range\<close> and of a
  \<^verbatim>\<open>quality_threshold\<close> variable, the value returned is that of the first range
  entry, or option, in table order whose bounds contain the quality of the row, where a
  missing \<^verbatim>\<open>quality_min\<close> counts as 0, a missing \<^verbatim>\<open>quality_max\<close> as 1 and both
  ends are inclusive (\<open>first_containing\<close>); it is the default 0 when there is none. The
  variable has its five keys, the row its two cells with a numeric quality, the product
  table lists the component after components of other names, and the entries are
  dictionaries whose bounds, where present, are numbers.
\<close>

theorem quality_lookup_first_match:
  assumes "var_file cfg = Some f" "var_lookup_column cfg = Some lc"
    "var_quality_column cfg = Some qc" "var_value_path cfg = Some vp"
    "var_value_key cfg = Some vk" "r lc = Some step" "r qc = Some (Num q)"
    "attr_table_of d a TABLE_PRODUCT = Inr (Lst (pre @ Dct cd # post))"
    "\<forall>c\<in>set pre. other_component step c" "map_of cd COMPONENT_NAME = Some step"
    "\<forall>e\<in>set entries. wf_range_entry e"
  shows "(var_source cfg = Some ''quality_range'' \<longrightarrow>
            walk_get (Dct cd) (split_on CHR ''.'' vp) (Lst []) = Inr (Lst entries) \<longrightarrow>
            get_variable_value r n cfg d a = Inr (first_containing q vk entries)) \<and>
         (var_source cfg = Some ''quality_threshold'' \<longrightarrow>
            (\<exists>options. map_of cd vp = Some (Dct options) \<and> map snd options = entries) \<longrightarrow>
            get_variable_value r n cfg d a = Inr (first_containing q vk entries))"
proof (intro conjI impI)
  have qi: "quality_inputs r cfg = Inr (step, Num q, vp, vk)"
    using assms(1-7) by (simp add: quality_inputs_def)
  {
    assume s: "var_source cfg = Some ''quality_range''"
      and w: "walk_get (Dct cd) (split_on CHR ''.'' vp) (Lst []) = Inr (Lst entries)"
    have "from_quality_range r cfg d a = Inr (first_containing q vk entries)"
      using quality_range_lookup_found [OF assms(9,10) w assms(11)]
      by (simp add: from_quality_range_def qi assms(8) py_iter_def)
    then show "get_variable_value r n cfg d a = Inr (first_containing q vk entries)"
      by (simp add: get_variable_value_def s)
  }
  {
    assume s: "var_source cfg = Some ''quality_threshold''"
      and "\<exists>options. map_of cd vp = Some (Dct options) \<and> map snd options = entries"
    then obtain options where o: "map_of cd vp = Some (Dct options)"
      and e: "map snd options = entries" by blast
    have wf: "\<forall>e\<in>set (map snd options). wf_range_entry e" using assms(11) e by simp
    have "from_quality_threshold r cfg d a = Inr (first_containing q vk (map snd options))"
      using quality_threshold_lookup_found [OF assms(9,10) o wf]
      by (simp add: from_quality_threshold_def qi assms(8) py_iter_def)
    then show "get_variable_value r n cfg d a = Inr (first_containing q vk entries)"
      by (simp add: get_variable_value_def s e)
  }
qed

theorem quality_lookup_first_match_witness:
  "get_variable_value (housing_row (3 / 10)) ''recovery'' recovery_var product_data product_structure
     = Inr (Num 5) \<and>
   get_variable_value (housing_row 0) ''recovery'' recovery_var product_data product_structure
     = Inr (Num 5) \<and>
   get_variable_value (housing_row 1) ''recovery'' recovery_var product_data product_structure
     = Inr (Num 20) \<and>
   get_variable_value (housing_row (1 / 2)) ''circ'' circularity_var product_data product_structure
     = Inr (Num (2 / 5))"
proof -
  let ?ranges = "[Dct [(''quality_max'', Num (3 / 10)), (''value'', Num 5)],
              Dct [(''quality_min'', Num (3 / 10)), (''quality_max'', Num (7 / 10)),
                   (''value'', Num 12)],
              Dct [(''quality_min'', Num (7 / 10)), (''value'', Num 20)]]"
  let ?options = "[(''recycle'', Dct [(''quality_max'', Num (1 / 2)), (''circularity'', Num (2 / 5))]),
              (''reuse'', Dct [(''quality_min'', Num (1 / 2)), (''circularity'', Num 1)])]"
  let ?pre = "[Dct [(''component_name'', Str ''screw'')]]"
  have tab: "attr_table_of product_data product_structure TABLE_PRODUCT
      = Inr (Lst (?pre @ Dct housing # []))"
    by (simp add: attr_table_of_def product_data_def product_structure_def TABLE_PRODUCT_def
        py_index_def)
  have pre: "\<forall>c\<in>set ?pre. other_component (Str ''housing'') c"
    by (simp add: other_component_def COMPONENT_NAME_def)
  have nm: "map_of housing COMPONENT_NAME = Some (Str ''housing'')"
    by (simp add: housing_def COMPONENT_NAME_def)
  have wr: "\<forall>e\<in>set ?ranges. wf_range_entry e"
    by (simp add: wf_range_entry_def numeric_or_missing_def QUALITY_MIN_def QUALITY_MAX_def)
  have wo: "\<forall>e\<in>set (map snd ?options). wf_range_entry e"
    by (simp add: wf_range_entry_def numeric_or_missing_def QUALITY_MIN_def QUALITY_MAX_def)
  have walk: "walk_get (Dct housing) (split_on CHR ''.'' ''quality_dependent.recovery'') (Lst [])
      = Inr (Lst ?ranges)"
    by (simp add: housing_def py_get_def)
  have opt: "\<exists>options. map_of housing ''end_of_life_options'' = Some (Dct options)
      \<and> map snd options = map snd ?options"
    by (simp add: housing_def)
  have range: "get_variable_value (housing_row q) ''recovery'' recovery_var product_data
      product_structure = Inr (first_containing q ''value'' ?ranges)" for q
    using quality_lookup_first_match [of recovery_var "''attributes_product.json''" "''step_name''"
        "''quality''" "''quality_dependent.recovery''" "''value''" "housing_row q" "Str ''housing''"
        q product_data product_structure ?pre housing "[]" ?ranges "''recovery''",
        OF _ _ _ _ _ _ _ tab pre nm wr] walk
    by (simp add: recovery_var_def housing_row_def)
  have thr: "get_variable_value (housing_row q) ''circ'' circularity_var product_data
      product_structure = Inr (first_containing q ''circularity'' (map snd ?options))" for q
    using quality_lookup_first_match [of circularity_var "''attributes_product.json''"
        "''step_name''" "''quality''" "''end_of_life_options''" "''circularity''" "housing_row q"
        "Str ''housing''" q product_data product_structure ?pre housing "[]" "map snd ?options"
        "''circ''", OF _ _ _ _ _ _ _ tab pre nm wo] opt
    by (simp add: circularity_var_def housing_row_def)
  have ev: "first_containing (3 / 10) ''value'' ?ranges = Num 5"
    "first_containing 0 ''value'' ?ranges = Num 5"
    "first_containing 1 ''value'' ?ranges = Num 20"
    "first_containing (1 / 2) ''circularity'' (map snd ?options) = Num (2 / 5)"
    by (simp_all add: first_containing_def contains_quality_def entry_min_def entry_max_def
        entry_value_def QUALITY_MIN_def QUALITY_MAX_def)
  show ?thesis
    unfolding range thr ev by simp
qed

section \<open>Properties of formula evaluation\<close>





section \<open>Properties of aggregation\<close>

lemma merge_rows_elem:
  assumes "p \<in> set (merge_rows ids ag)"
  shows "fst p < length ids \<and> (group_values ag (ids ! fst p) = [] \<longrightarrow> snd p = None)"
proof -
  from assms obtain i where i: "i < length ids" and
    p: "p \<in> set (case group_values ag (ids ! i) of
                    [] \<Rightarrow> [(i, None)]
                  | v # vs \<Rightarrow> map (\<lambda>x. (i, Some x)) (v # vs))"
    by (auto simp: merge_rows_def)
  show ?thesis
  proof (cases "group_values ag (ids ! i)")
    case Nil
    with p i show ?thesis by simp
  next
    case (Cons v vs)
    with p have "fst p = i" by auto
    with Cons i show ?thesis by simp
  qed
qed

lemma merge_rows_covers:
  assumes "i < length ids"
  shows "i \<in> fst ` set (merge_rows ids ag)"
proof (cases "group_values ag (ids ! i)")
  case Nil
  then have "(i, None) \<in> set (merge_rows ids ag)"
    using assms by (force simp: merge_rows_def)
  then show ?thesis by force
next
  case (Cons v vs)
  then have "(i, Some v) \<in> set (merge_rows ids ag)"
    using assms by (force simp: merge_rows_def)
  then show ?thesis by force
qed

lemma merge_rows_ids:
  "set (map (nth ids) (map fst (merge_rows ids ag))) = set ids"
proof
  show "set (map (nth ids) (map fst (merge_rows ids ag))) \<subseteq> set ids"
    using merge_rows_elem [of _ ids ag] by auto
  show "set ids \<subseteq> set (map (nth ids) (map fst (merge_rows ids ag)))"
  proof
    fix e assume "e \<in> set ids"
    then obtain i where i: "i < length ids" "ids ! i = e" by (auto simp: in_set_conv_nth)
    from merge_rows_covers [OF i(1), of ag] obtain p where
      "p \<in> set (merge_rows ids ag)" "fst p = i" by auto
    with i(2) show "e \<in> set (map (nth ids) (map fst (merge_rows ids ag)))" by force
  qed
qed

lemma exp_id_take_rows: "exp_id (take_rows idxs df) = map (nth (exp_id df)) idxs"
  by (simp add: take_rows_def)

lemma merged_ids:
  "set (exp_id (take_rows (map fst (merge_rows (exp_id df) ag)) df)) = set (exp_id df)"
  unfolding exp_id_take_rows by (rule merge_rows_ids)

lemma aggregate_step_ids:
  "set (exp_id (fst (aggregate_step d ind st))) = set (exp_id (fst st))"
  by (cases st)
    (simp add: aggregate_step_def Let_def set_col_def merged_ids split: option.splits)

lemma aggregate_loop_ids:
  "set (exp_id (fst (aggregate_loop d inds st))) = set (exp_id (fst st))"
  by (induction inds arbitrary: st) (auto simp: aggregate_step_ids)

lemma filter_isin_ids:
  "set (exp_id (filter_isin df av)) = set (exp_id df) \<inter> set av"
proof -
  have "set (exp_id (filter_isin df av))
        = (nth (exp_id df)) ` {i. i < length (exp_id df) \<and> exp_id df ! i \<in> set av}"
    by (simp add: filter_isin_def exp_id_take_rows nrows_def)
  also have "\<dots> = set (exp_id df) \<inter> set av"
  proof
    show "(nth (exp_id df)) ` {i. i < length (exp_id df) \<and> exp_id df ! i \<in> set av}
          \<subseteq> set (exp_id df) \<inter> set av"
      by auto
    show "set (exp_id df) \<inter> set av
          \<subseteq> (nth (exp_id df)) ` {i. i < length (exp_id df) \<and> exp_id df ! i \<in> set av}"
    proof
      fix e assume e: "e \<in> set (exp_id df) \<inter> set av"
      then obtain i where "i < length (exp_id df)" "exp_id df ! i = e"
        by (auto simp: in_set_conv_nth)
      with e show "e \<in> (nth (exp_id df)) ` {i. i < length (exp_id df) \<and> exp_id df ! i \<in> set av}"
        by force
    qed
  qed
  finally show ?thesis .
qed

lemma round_columns_result:
  assumes "round_columns df cs = Inr df'"
  shows "exp_id df' = exp_id df \<and>
         (\<forall>c. cols df' c = (if c \<in> set cs then map_option round_col (cols df c) else cols df c))"
  using assms
proof (induction cs arbitrary: df')
  case Nil
  then show ?case by simp
next
  case (Cons c cs)
  from Cons.prems obtain col df1 where
    c: "cols df c = Some col" and r: "round_columns df cs = Inr df1" and
    d: "df' = set_col df1 c (round_col col)"
    by (auto simp: bind_err_def split: option.splits sum.splits)
  from Cons.IH [OF r] show ?case
    by (auto simp: d set_col_def c)
qed

lemma round_columns_ok:
  assumes "\<forall>c\<in>set cs. cols df c \<noteq> None"
  shows "\<exists>df'. round_columns df cs = Inr df'"
  using assms by (induction cs) auto

lemma indicator_cols_of_ok:
  assumes "\<forall>ind\<in>set inds. indicator_id ind \<noteq> None"
  shows "\<exists>cs. indicator_cols_of inds missing = Inr cs \<and>
           (\<forall>c\<in>set cs. c \<notin> set missing \<and> (\<exists>ind\<in>set inds. indicator_id ind = Some c))"
  using assms
proof (induction inds)
  case Nil
  then show ?case by simp
next
  case (Cons ind inds)
  then obtain i where i: "indicator_id ind = Some i" by auto
  from Cons obtain cs where
    cs: "indicator_cols_of inds missing = Inr cs"
      "\<forall>c\<in>set cs. c \<notin> set missing \<and> (\<exists>ind\<in>set inds. indicator_id ind = Some c)"
    by auto
  show ?case using i cs by auto
qed

lemma cols_take_rows_None: "cols (take_rows idxs df) c = None \<longleftrightarrow> cols df c = None"
  by (simp add: take_rows_def)

lemma cols_take_rows_Some:
  "(\<exists>y. cols (take_rows idxs df) c = Some y) \<longleftrightarrow> (\<exists>y. cols df c = Some y)"
  by (simp add: take_rows_def)

lemma aggregate_step_present:
  assumes "cols_present prev st"
  shows "cols_present (ind # prev) (aggregate_step d ind st)"
proof (cases st)
  case (fields df missing msgs)
  show ?thesis
    using assms unfolding fields cols_present_def aggregate_step_def Let_def
    by (auto simp: id_or_unknown_def set_col_def cols_take_rows_None cols_take_rows_Some
        split: option.splits)
qed

lemma aggregate_loop_present:
  assumes "cols_present prev st"
  shows "cols_present (rev inds @ prev) (aggregate_loop d inds st)"
  using assms
proof (induction inds arbitrary: st prev)
  case Nil
  then show ?case by simp
next
  case (Cons ind inds)
  from Cons.IH [OF aggregate_step_present [OF Cons.prems, of ind d]]
  show ?case by simp
qed
lemma aggregate_loop_append:
  "aggregate_loop d (xs @ ys) st = aggregate_loop d ys (aggregate_loop d xs st)"
  by (induction xs arbitrary: st) auto

lemma groupby_keys:
  "fst ` set (groupby_sum ps) = fst ` set ps" "fst ` set (groupby_mean ps) = fst ` set ps"
  by (simp_all add: groupby_sum_def groupby_mean_def image_image)

lemma aggregate_series_keys: "fst ` set (aggregate_series m ps) \<subseteq> fst ` set ps"
proof -
  have "fst ` set (aggregate_series m ps) = fst ` set ps"
  proof (cases "m = ''sum''")
    case True
    then show ?thesis by (simp add: aggregate_series_def groupby_keys)
  next
    case ns: False
    show ?thesis
    proof (cases "m = ''average'' \<or> m = ''mean''")
      case True
      then show ?thesis using ns by (simp add: aggregate_series_def groupby_keys)
    next
      case False
      then show ?thesis using ns by (simp add: aggregate_series_def)
    qed
  qed
  then show ?thesis by simp
qed

lemma group_values_absent:
  assumes "e \<notin> set (exp_id tdf)"
  shows "group_values (aggregate_series m (zip (exp_id tdf) vs)) e = []"
proof -
  have "e \<notin> fst ` set (zip (exp_id tdf) vs)"
    using assms by (auto dest: set_zip_leftD)
  with aggregate_series_keys [of m "zip (exp_id tdf) vs"]
  have "e \<notin> fst ` set (aggregate_series m (zip (exp_id tdf) vs))" by blast
  then show ?thesis
    by (auto simp: group_values_def filter_empty_conv)
qed

lemma take_rows_zero:
  assumes "zero_for c e df" "\<forall>j\<in>set idxs. j < nrows df"
  shows "zero_for c e (take_rows idxs df)"
proof -
  from assms(1) obtain xs where xs: "cols df c = Some (Floats xs)" "length xs = nrows df"
    "\<forall>k<nrows df. exp_id df ! k = e \<longrightarrow> xs ! k = 0"
    by (auto simp: zero_for_def)
  have "cols (take_rows idxs df) c = Some (Floats (map (nth xs) idxs))"
    by (simp add: take_rows_def xs(1) take_col_def)
  moreover have "nrows (take_rows idxs df) = length idxs"
    by (simp add: nrows_def take_rows_def)
  moreover have "\<forall>k<length idxs. exp_id (take_rows idxs df) ! k = e \<longrightarrow> map (nth xs) idxs ! k = 0"
    using assms(2) xs(3) by (simp add: take_rows_def)
  ultimately show ?thesis by (simp add: zero_for_def)
qed

lemma merged_idxs_valid:
  "\<forall>j\<in>set (map fst (merge_rows (exp_id df) ag)). j < nrows df"
  using merge_rows_elem [of _ "exp_id df" ag] by (auto simp: nrows_def)

lemma zero_for_set_col:
  assumes "zero_for c e df" "c' \<noteq> c"
  shows "zero_for c e (set_col df c' col)"
  using assms by (simp add: zero_for_def set_col_def nrows_def)

text \<open>An iteration for which the table has no column of the indicator's name yet keeps
  the zeros of the other columns.\<close>

lemma aggregate_step_keep:
  assumes "zero_for c e (fst st)" "\<forall>i. indicator_id ind = Some i \<longrightarrow> cols (fst st) i = None"
  shows "zero_for c e (fst (aggregate_step d ind st))"
proof (cases st)
  case (fields df missing msgs)
  have z: "zero_for c e df" using assms(1) fields by simp
  have m: "zero_for c e (set_col (take_rows (map fst (merge_rows (exp_id df) ag)) df) i col)"
    if "cols df i = None" for ag i col
  proof -
    from z that have "i \<noteq> c" by (auto simp: zero_for_def)
    with take_rows_zero [OF z merged_idxs_valid [of df ag]] show ?thesis
      by (intro zero_for_set_col) simp_all
  qed
  show ?thesis
    using assms(2) z m unfolding fields aggregate_step_def Let_def
    by (auto split: option.splits)
qed

lemma aggregate_step_within:
  assumes "cols_within doe prev st" "\<forall>i. indicator_id ind = Some i \<longrightarrow> cols (fst st) i = None"
  shows "cols_within doe (ind # prev) (aggregate_step d ind st)"
proof (cases st)
  case (fields df missing msgs)
  show ?thesis
    using assms unfolding fields cols_within_def aggregate_step_def Let_def
    by (auto simp: set_col_def take_rows_def split: option.splits if_splits)
qed

lemma no_collision:
  assumes "cols_within doe prev st" "distinct (map indicator_id (prev @ ind # inds))"
    "\<forall>i. indicator_id ind = Some i \<longrightarrow> cols doe i = None"
  shows "\<forall>i. indicator_id ind = Some i \<longrightarrow> cols (fst st) i = None"
proof (intro allI impI)
  fix i assume i: "indicator_id ind = Some i"
  show "cols (fst st) i = None"
  proof (rule ccontr)
    assume "cols (fst st) i \<noteq> None"
    with assms(1) have "cols doe i \<noteq> None \<or> (\<exists>p\<in>set prev. indicator_id p = Some i)"
      by (simp add: cols_within_def)
    with assms(3) i obtain p where p: "p \<in> set prev" "indicator_id p = Some i" by auto
    then have "indicator_id ind \<in> indicator_id ` set prev" using i by force
    with assms(2) show False by auto
  qed
qed

lemma aggregate_loop_within:
  assumes "cols_within doe prev st" "distinct (map indicator_id (prev @ inds))"
    "\<forall>ind\<in>set inds. \<forall>i. indicator_id ind = Some i \<longrightarrow> cols doe i = None"
  shows "cols_within doe (rev inds @ prev) (aggregate_loop d inds st)"
  using assms
proof (induction inds arbitrary: st prev)
  case Nil
  then show ?case by simp
next
  case (Cons ind inds)
  have nc: "\<forall>i. indicator_id ind = Some i \<longrightarrow> cols (fst st) i = None"
    using no_collision [OF Cons.prems(1,2)] Cons.prems(3) by simp
  have w: "cols_within doe (ind # prev) (aggregate_step d ind st)"
    by (rule aggregate_step_within [OF Cons.prems(1) nc])
  have di: "distinct (map indicator_id ((ind # prev) @ inds))"
    using Cons.prems(2) by auto
  have fr: "\<forall>ind\<in>set inds. \<forall>i. indicator_id ind = Some i \<longrightarrow> cols doe i = None"
    using Cons.prems(3) by simp
  from Cons.IH [OF w di fr] show ?case by simp
qed

lemma aggregate_loop_keep:
  assumes "zero_for c e (fst st)" "cols_within doe prev st"
    "distinct (map indicator_id (prev @ inds))"
    "\<forall>ind\<in>set inds. \<forall>i. indicator_id ind = Some i \<longrightarrow> cols doe i = None"
  shows "zero_for c e (fst (aggregate_loop d inds st))"
  using assms
proof (induction inds arbitrary: st prev)
  case Nil
  then show ?case by simp
next
  case (Cons ind inds)
  have nc: "\<forall>i. indicator_id ind = Some i \<longrightarrow> cols (fst st) i = None"
    using no_collision [OF Cons.prems(2,3)] Cons.prems(4) by simp
  have z: "zero_for c e (fst (aggregate_step d ind st))"
    by (rule aggregate_step_keep [OF Cons.prems(1) nc])
  have w: "cols_within doe (ind # prev) (aggregate_step d ind st)"
    by (rule aggregate_step_within [OF Cons.prems(2) nc])
  have di: "distinct (map indicator_id ((ind # prev) @ inds))"
    using Cons.prems(3) by auto
  have fr: "\<forall>ind\<in>set inds. \<forall>i. indicator_id ind = Some i \<longrightarrow> cols doe i = None"
    using Cons.prems(4) by simp
  from Cons.IH [OF z w di fr] show ?case by simp
qed

text \<open>The iteration of an indicator whose target table has its column and no row of
  experiment \<open>e\<close> writes 0 into every row of \<open>e\<close>.\<close>

lemma aggregate_step_zero:
  assumes "indicator_id ind = Some i" "target_dataframe ind = Some tn" "aggregation ind = Some m"
    "tables d tn = Some tdf" "cols tdf i = Some col" "numeric col = Some vs"
    "e \<notin> set (exp_id tdf)" "cols (fst st) i = None"
  shows "zero_for i e (fst (aggregate_step d ind st))"
proof (cases st)
  case (fields df missing msgs)
  define ag where "ag = aggregate_series m (zip (exp_id tdf) vs)"
  define rows where "rows = merge_rows (exp_id df) ag"
  define merged where "merged = take_rows (map fst rows) df"
  have st: "fst (aggregate_step d ind st) = set_col merged i (Floats (fillna0 (map snd rows)))"
    using assms(1-6,8) unfolding fields aggregate_step_def Let_def
    by (simp add: ag_def rows_def merged_def)
  have n: "nrows (set_col merged i (Floats (fillna0 (map snd rows)))) = length rows"
    by (simp add: nrows_def set_col_def merged_def take_rows_def)
  have g: "group_values ag e = []" unfolding ag_def by (rule group_values_absent [OF assms(7)])
  have "fillna0 (map snd rows) ! k = 0"
    if k: "k < length rows" and e: "exp_id merged ! k = e" for k
  proof -
    have mem: "rows ! k \<in> set (merge_rows (exp_id df) ag)" using k by (simp add: rows_def)
    have "exp_id df ! fst (rows ! k) = e"
      using e k by (simp add: merged_def take_rows_def)
    with merge_rows_elem [OF mem] g have "snd (rows ! k) = None" by simp
    then show ?thesis using k by (simp add: fillna0_def)
  qed
  then show ?thesis
    unfolding st zero_for_def n
    by (simp add: set_col_def fillna0_def)
qed

lemma filter_isin_within: "cols_within doe [] (filter_isin doe av, [], [])"
  by (simp add: cols_within_def filter_isin_def take_rows_def)

text \<open>The zeros of a successfully aggregated indicator at the end of the loop.\<close>

lemma aggregate_loop_zero:
  assumes "ind \<in> set inds" "indicator_id ind = Some i" "target_dataframe ind = Some tn"
    "aggregation ind = Some m" "tables d tn = Some tdf" "cols tdf i = Some col"
    "numeric col = Some vs" "e \<notin> set (exp_id tdf)"
    "distinct (map indicator_id inds)"
    "\<forall>ind\<in>set inds. \<forall>i. indicator_id ind = Some i \<longrightarrow> cols doe i = None"
  shows "zero_for i e (fst (aggregate_loop d inds (filter_isin doe av, [], [])))"
proof -
  from assms(1) obtain pre post where sp: "inds = pre @ ind # post"
    by (auto dest: split_list)
  define st0 :: agg_state where "st0 = (filter_isin doe av, [], [])"
  define st1 where "st1 = aggregate_loop d pre st0"
  have w0: "cols_within doe [] st0" unfolding st0_def by (rule filter_isin_within)
  have d1: "distinct (map indicator_id ([] @ pre))" using assms(9) sp by simp
  have f1: "\<forall>ind\<in>set pre. \<forall>i. indicator_id ind = Some i \<longrightarrow> cols doe i = None"
    using assms(10) sp by auto
  have w1: "cols_within doe (rev pre) st1"
    using aggregate_loop_within [OF w0 d1 f1, of d] by (simp add: st1_def)
  have d2: "distinct (map indicator_id (rev pre @ ind # post))"
    using assms(9) sp by (auto simp: rev_map [symmetric])
  have fi: "\<forall>i. indicator_id ind = Some i \<longrightarrow> cols doe i = None"
    using assms(1,10) by simp
  have nc: "cols (fst st1) i = None"
    using no_collision [OF w1 d2 fi] assms(2) by simp
  have z: "zero_for i e (fst (aggregate_step d ind st1))"
    by (rule aggregate_step_zero [OF assms(2-8) nc])
  have w2: "cols_within doe (ind # rev pre) (aggregate_step d ind st1)"
    using aggregate_step_within [OF w1] no_collision [OF w1 d2 fi] by simp
  have d3: "distinct (map indicator_id ((ind # rev pre) @ post))"
    using d2 by auto
  have f3: "\<forall>ind\<in>set post. \<forall>i. indicator_id ind = Some i \<longrightarrow> cols doe i = None"
    using assms(10) sp by auto
  have "zero_for i e (fst (aggregate_loop d post (aggregate_step d ind st1)))"
    by (rule aggregate_loop_keep [OF z w2 d3 f3])
  then show ?thesis
    by (simp add: sp aggregate_loop_append st1_def st0_def)
qed
lemma sparse_result_ids:
  "experiment_ids_of (aggregate_to_experiment_level sparse_data) = Some [''exp001'', ''exp002'']"
  by code_simp

lemma sparse_tables:
  "tables sparse_data ''doe'' = Some sparse_doe"
  "tables sparse_data ''df_process'' = Some sparse_process"
  "tables sparse_data ''df_product'' = Some sparse_product"
  "indicators sparse_data = Some [IND01, IND05]"
  by (simp_all add: sparse_data_def no_data_def)

text \<open>
  C1, as stated, fails: the experiments that are kept are those of the process table. An
  experiment of the design table that has rows in the product table only is not in the
  aggregated table.
\<close>

theorem aggregation_drops_product_only_experiment:
  "tables sparse_data ''doe'' = Some sparse_doe \<and>
   ''exp003'' \<in> set (exp_id sparse_doe) \<and>
   tables sparse_data ''df_product'' = Some sparse_product \<and>
   ''exp003'' \<in> set (exp_id sparse_product) \<and>
   experiment_ids_of (aggregate_to_experiment_level sparse_data) = Some [''exp001'', ''exp002''] \<and>
   ''exp003'' \<notin> set [''exp001'', ''exp002'']"
  by (simp add: sparse_tables sparse_result_ids sparse_doe_def sparse_product_def)

text \<open>
  C1, amended. When the design table and the process table are present and not empty and
  every indicator has its id, the aggregation returns a table whose experiment ids are
  exactly those of the design table that also occur in the process table: none of them is
  dropped. With unique indicator ids that are not columns of the design table, an
  indicator whose target table has its (numeric) column gets the value 0 in every row of
  an experiment for which the target table has no row.
\<close>

theorem aggregation_keeps_process_experiments:
  assumes "tables d ''doe'' = Some doe" "\<not> empty_frame doe"
    "tables d ''df_process'' = Some df_process" "\<not> empty_frame df_process"
    "indicators d = Some inds" "\<forall>ind\<in>set inds. indicator_id ind \<noteq> None"
  shows "\<exists>df' msgs. aggregate_to_experiment_level d = Inr (df', msgs) \<and>
     set (exp_id df') = set (exp_id doe) \<inter> set (exp_id df_process) \<and>
     (distinct (map indicator_id inds) \<longrightarrow>
      (\<forall>ind\<in>set inds. \<forall>i. indicator_id ind = Some i \<longrightarrow> cols doe i = None) \<longrightarrow>
      (\<forall>ind\<in>set inds. \<forall>i tn m tdf col vs k.
          indicator_id ind = Some i \<longrightarrow> target_dataframe ind = Some tn \<longrightarrow>
          aggregation ind = Some m \<longrightarrow> tables d tn = Some tdf \<longrightarrow> cols tdf i = Some col \<longrightarrow>
          numeric col = Some vs \<longrightarrow> k < nrows df' \<longrightarrow> exp_id df' ! k \<notin> set (exp_id tdf) \<longrightarrow>
          value_at df' i k = Some 0))"
proof -
  define av where "av = remdups (exp_id df_process)"
  define df0 where "df0 = filter_isin doe av"
  have av: "av \<noteq> []" using assms(4) by (simp add: av_def empty_frame_def)
  have ids0: "set (exp_id df0) = set (exp_id doe) \<inter> set (exp_id df_process)"
    by (simp add: df0_def av_def filter_isin_ids)
  show ?thesis
  proof (cases "empty_frame df0")
    case True
    have r: "aggregate_to_experiment_level d = Inr (empty_DataFrame, [NoMatchingExperiments])"
      using assms(1-5) av True
      by (simp add: aggregate_to_experiment_level_def Let_def av_def [symmetric] df0_def [symmetric])
    have e: "set (exp_id doe) \<inter> set (exp_id df_process) = {}"
      using True ids0 by (simp add: empty_frame_def)
    show ?thesis
      unfolding r
      apply (rule exI [of _ empty_DataFrame], rule exI [of _ "[NoMatchingExperiments]"])
      apply (simp add: e empty_DataFrame_def nrows_def)
      done
  next
    case False
    obtain df1 missing msgs0 where l: "aggregate_loop d inds (df0, [], []) = (df1, missing, msgs0)"
      using prod_cases3 by blast
    from indicator_cols_of_ok [OF assms(6), of missing] obtain cs where
      cs: "indicator_cols_of inds missing = Inr cs"
        "\<forall>c\<in>set cs. c \<notin> set missing \<and> (\<exists>ind\<in>set inds. indicator_id ind = Some c)"
      by blast
    have "cols_present [] (df0, [], [])" by (simp add: cols_present_def)
    from aggregate_loop_present [OF this, of inds d]
    have pr: "cols_present (rev inds) (df1, missing, msgs0)" by (simp add: l)
    have ex: "\<forall>c\<in>set cs. cols df1 c \<noteq> None"
      using cs(2) pr by (auto simp: cols_present_def)
    from round_columns_ok [OF ex] obtain df2 where r2: "round_columns df1 cs = Inr df2" by blast
    note rr = round_columns_result [OF r2]
    define df' where "df' = (if cs \<noteq> [] then df2 else df1)"
    define msgs where "msgs = (if cs \<noteq> [] then msgs0 else msgs0 @ [NoneAggregated])"
    have r: "aggregate_to_experiment_level d = Inr (df', msgs)"
      using assms(1-5) av False
      by (simp add: aggregate_to_experiment_level_def Let_def av_def [symmetric]
          df0_def [symmetric] l cs(1) r2 df'_def msgs_def)
    have id': "exp_id df' = exp_id df1" using rr by (simp add: df'_def)
    have c': "cols df' c = (if c \<in> set cs then map_option round_col (cols df1 c) else cols df1 c)"
      for c using rr by (simp add: df'_def)
    have ids1: "set (exp_id df1) = set (exp_id df0)"
      using aggregate_loop_ids [of d inds "(df0, [], [])"] by (simp add: l)
    have a: "set (exp_id df') = set (exp_id doe) \<inter> set (exp_id df_process)"
      by (simp add: id' ids1 ids0)
    have b: "value_at df' i k = Some 0"
      if di: "distinct (map indicator_id inds)"
        and fr: "\<forall>ind\<in>set inds. \<forall>i. indicator_id ind = Some i \<longrightarrow> cols doe i = None"
        and ind: "ind \<in> set inds" "indicator_id ind = Some i" "target_dataframe ind = Some tn"
          "aggregation ind = Some m" "tables d tn = Some tdf" "cols tdf i = Some col"
          "numeric col = Some vs"
        and k: "k < nrows df'" "exp_id df' ! k \<notin> set (exp_id tdf)"
      for ind i tn m tdf col vs k
    proof -
      from aggregate_loop_zero [OF ind k(2) di fr, of av]
      have "zero_for i (exp_id df' ! k) df1" by (simp add: df0_def [symmetric] l)
      then obtain xs where xs: "cols df1 i = Some (Floats xs)" "length xs = nrows df1"
        "\<forall>j<nrows df1. exp_id df1 ! j = exp_id df' ! k \<longrightarrow> xs ! j = 0"
        by (auto simp: zero_for_def)
      have k1: "k < nrows df1" using k(1) by (simp add: nrows_def id')
      with xs(3) have z: "xs ! k = 0" by (simp add: id')
      show ?thesis
        using z k1 xs(2) by (simp add: value_at_def c' xs(1) round_col_def round_decimals_zero)
    qed
    show ?thesis
      unfolding r
      apply (rule exI [of _ df'], rule exI [of _ msgs])
      apply (intro conjI refl a impI ballI allI)
      apply (rule b)
               apply assumption+
      done
  qed
qed

theorem aggregation_keeps_process_experiments_witness:
  "\<exists>df' msgs. aggregate_to_experiment_level sparse_data = Inr (df', msgs) \<and>
     exp_id df' = [''exp001'', ''exp002''] \<and>
     exp_id sparse_product = [''exp001'', ''exp003''] \<and>
     value_at df' ''IND05'' 1 = Some 0"
proof -
  have ne: "\<not> empty_frame sparse_doe" "\<not> empty_frame sparse_process"
    by (simp_all add: empty_frame_def sparse_doe_def sparse_process_def)
  have ids: "\<forall>ind\<in>set [IND01, IND05]. indicator_id ind \<noteq> None"
    by (simp add: IND01_def IND05_def)
  have di: "distinct (map indicator_id [IND01, IND05])" by (simp add: IND01_def IND05_def)
  have fr: "\<forall>ind\<in>set [IND01, IND05]. \<forall>i. indicator_id ind = Some i \<longrightarrow> cols sparse_doe i = None"
    by (simp add: IND01_def IND05_def sparse_doe_def)
  from aggregation_keeps_process_experiments [OF sparse_tables(1) ne(1) sparse_tables(2) ne(2)
      sparse_tables(4) ids]
  obtain df' msgs where
    r: "aggregate_to_experiment_level sparse_data = Inr (df', msgs)" and
    b: "distinct (map indicator_id [IND01, IND05]) \<longrightarrow>
      (\<forall>ind\<in>set [IND01, IND05]. \<forall>i. indicator_id ind = Some i \<longrightarrow> cols sparse_doe i = None) \<longrightarrow>
      (\<forall>ind\<in>set [IND01, IND05]. \<forall>i tn m tdf col vs k.
          indicator_id ind = Some i \<longrightarrow> target_dataframe ind = Some tn \<longrightarrow>
          aggregation ind = Some m \<longrightarrow> tables sparse_data tn = Some tdf \<longrightarrow>
          cols tdf i = Some col \<longrightarrow> numeric col = Some vs \<longrightarrow> k < nrows df' \<longrightarrow>
          exp_id df' ! k \<notin> set (exp_id tdf) \<longrightarrow> value_at df' i k = Some 0)"
    by blast
  have e: "exp_id df' = [''exp001'', ''exp002'']"
    using sparse_result_ids by (simp add: r experiment_ids_of_def)
  from b di fr have
    "\<forall>i tn m tdf col vs k.
          indicator_id IND05 = Some i \<longrightarrow> target_dataframe IND05 = Some tn \<longrightarrow>
          aggregation IND05 = Some m \<longrightarrow> tables sparse_data tn = Some tdf \<longrightarrow>
          cols tdf i = Some col \<longrightarrow> numeric col = Some vs \<longrightarrow> k < nrows df' \<longrightarrow>
          exp_id df' ! k \<notin> set (exp_id tdf) \<longrightarrow> value_at df' i k = Some 0"
    by simp
  from this [rule_format, of "''IND05''" "''df_product''" "''average''" sparse_product
      "Floats [2, 4]" "[2, 4]" 1]
  have "value_at df' ''IND05'' 1 = Some 0"
    by (simp add: IND05_def sparse_tables(3) sparse_product_def numeric_def nrows_def e)
  with r e show ?thesis by (simp add: sparse_product_def)
qed






end
